theory Spec2Isabelle
  imports Complex_Main
begin

section \<open>Numbers\<close>

text \<open>
  A TypeScript \<^verbatim>\<open>number\<close> is modelled as a real: the finite values, with exact
  arithmetic. NaN, the infinities and the rounding of doubles are outside the model;
  where the source divides, the model says what happens at a zero divisor.

  \<^verbatim>\<open>Math.round\<close> returns the nearest integer and rounds a tie towards plus infinity.
\<close>

definition Math_round :: "real \<Rightarrow> real" where
  "Math_round x = of_int \<lfloor>x + 1 / 2\<rfloor>"

definition isInteger :: "real \<Rightarrow> bool" where
  "isInteger x = (of_int \<lfloor>x\<rfloor> = x)"

text \<open>
  \<^verbatim>\<open>a ?? b\<close>: the left operand unless it is absent. \<^verbatim>\<open>!x\<close> on an optional
  number: true when the field is absent and when it holds 0 (the only falsy real).
\<close>

definition nullish :: "'a option \<Rightarrow> 'a \<Rightarrow> 'a" where
  "nullish v d = (case v of None \<Rightarrow> d | Some x \<Rightarrow> x)"

definition falsyNumber :: "real option \<Rightarrow> bool" where
  "falsyNumber v = (case v of None \<Rightarrow> True | Some x \<Rightarrow> x = 0)"

section \<open>Motion blur configuration (MotionBlur.ts)\<close>

datatype ShutterCurve = Box | Triangle | Gaussian

datatype ShutterPosition = Center | Start | End

datatype MotionBlurQuality = Low | Medium | High | Ultra

fun QUALITY_SAMPLES :: "MotionBlurQuality \<Rightarrow> real" where
  "QUALITY_SAMPLES Low = 4"
| "QUALITY_SAMPLES Medium = 8"
| "QUALITY_SAMPLES High = 16"
| "QUALITY_SAMPLES Ultra = 32"

record MotionBlurConfig =
  enabled :: bool
  samples :: real
  shutterAngle :: real
  shutterCurve :: ShutterCurve
  shutterPosition :: ShutterPosition
  adaptiveSampling :: bool
  adaptiveMinSamples :: real
  shutterPhase :: real

definition DEFAULT_MOTION_BLUR_CONFIG :: MotionBlurConfig where
  "DEFAULT_MOTION_BLUR_CONFIG =
     \<lparr>enabled = False, samples = 8, shutterAngle = 180, shutterCurve = Box,
      shutterPosition = Center, adaptiveSampling = False, adaptiveMinSamples = 2,
      shutterPhase = - 90\<rparr>"

text \<open>
  \<^verbatim>\<open>MotionBlurOptions = Partial<MotionBlurConfig> & {quality?: MotionBlurQuality}\<close>:
  every field may be absent. The fields carry the prefix \<open>opt_\<close> to keep them apart from
  those of the resolved configuration.
\<close>

record MotionBlurOptions =
  opt_enabled :: "bool option"
  opt_samples :: "real option"
  opt_shutterAngle :: "real option"
  opt_shutterCurve :: "ShutterCurve option"
  opt_shutterPosition :: "ShutterPosition option"
  opt_adaptiveSampling :: "bool option"
  opt_adaptiveMinSamples :: "real option"
  opt_shutterPhase :: "real option"
  opt_quality :: "MotionBlurQuality option"

text \<open>The empty object \<^verbatim>\<open>{}\<close>.\<close>

definition noOptions :: MotionBlurOptions where
  "noOptions =
     \<lparr>opt_enabled = None, opt_samples = None, opt_shutterAngle = None,
      opt_shutterCurve = None, opt_shutterPosition = None, opt_adaptiveSampling = None,
      opt_adaptiveMinSamples = None, opt_shutterPhase = None, opt_quality = None\<rparr>"

text \<open>
  A resolved configuration passed where options are expected (the types allow it):
  every field present, no \<^verbatim>\<open>quality\<close>.
\<close>

definition asOptions :: "MotionBlurConfig \<Rightarrow> MotionBlurOptions" where
  "asOptions c =
     \<lparr>opt_enabled = Some (enabled c), opt_samples = Some (samples c),
      opt_shutterAngle = Some (shutterAngle c), opt_shutterCurve = Some (shutterCurve c),
      opt_shutterPosition = Some (shutterPosition c),
      opt_adaptiveSampling = Some (adaptiveSampling c),
      opt_adaptiveMinSamples = Some (adaptiveMinSamples c),
      opt_shutterPhase = Some (shutterPhase c), opt_quality = None\<rparr>"

fun calculatePhaseFromPosition :: "ShutterPosition \<Rightarrow> real \<Rightarrow> real" where
  "calculatePhaseFromPosition Center shutterAngle' = - shutterAngle' / 2"
| "calculatePhaseFromPosition Start shutterAngle' = 0"
| "calculatePhaseFromPosition End shutterAngle' = - shutterAngle'"

definition clampSamples :: "real \<Rightarrow> real" where
  "clampSamples s = max 1 (min 64 (Math_round s))"

definition clampShutterAngle :: "real \<Rightarrow> real" where
  "clampShutterAngle angle = max 0 (min 720 angle)"

definition clampShutterPhase :: "real \<Rightarrow> real" where
  "clampShutterPhase phase = max (- 360) (min 360 phase)"

text \<open>
  \<^verbatim>\<open>resolveMotionBlurConfig(options?)\<close>. The two guards of the source are truthiness
  tests: \<^verbatim>\<open>options.quality && !options.samples\<close> holds when a preset is given and
  \<^verbatim>\<open>samples\<close> is absent or 0; \<^verbatim>\<open>options.shutterPosition && !options.shutterPhase\<close>
  holds when a position is given and \<^verbatim>\<open>shutterPhase\<close> is absent or 0 (a preset
  and a position are non-empty strings, so they are truthy whenever present).
\<close>

definition resolveSamples :: "MotionBlurOptions \<Rightarrow> real" where
  "resolveSamples options =
     (let samples0 = nullish (opt_samples options) (samples DEFAULT_MOTION_BLUR_CONFIG)
      in case opt_quality options of
           Some q \<Rightarrow> if falsyNumber (opt_samples options) then QUALITY_SAMPLES q else samples0
         | None \<Rightarrow> samples0)"

definition resolveShutterPhase :: "MotionBlurOptions \<Rightarrow> real" where
  "resolveShutterPhase options =
     (let shutterPhase0 =
            nullish (opt_shutterPhase options) (shutterPhase DEFAULT_MOTION_BLUR_CONFIG)
      in case opt_shutterPosition options of
           Some p \<Rightarrow>
             if falsyNumber (opt_shutterPhase options)
             then calculatePhaseFromPosition p
                    (nullish (opt_shutterAngle options)
                       (shutterAngle DEFAULT_MOTION_BLUR_CONFIG))
             else shutterPhase0
         | None \<Rightarrow> shutterPhase0)"

definition resolveMotionBlurConfig :: "MotionBlurOptions option \<Rightarrow> MotionBlurConfig" where
  "resolveMotionBlurConfig opts =
     (case opts of
        None \<Rightarrow> DEFAULT_MOTION_BLUR_CONFIG
      | Some options \<Rightarrow>
          \<lparr>enabled = nullish (opt_enabled options) (enabled DEFAULT_MOTION_BLUR_CONFIG),
           samples = clampSamples (resolveSamples options),
           shutterAngle =
             clampShutterAngle
               (nullish (opt_shutterAngle options) (shutterAngle DEFAULT_MOTION_BLUR_CONFIG)),
           shutterCurve =
             nullish (opt_shutterCurve options) (shutterCurve DEFAULT_MOTION_BLUR_CONFIG),
           shutterPosition =
             nullish (opt_shutterPosition options)
               (shutterPosition DEFAULT_MOTION_BLUR_CONFIG),
           adaptiveSampling =
             nullish (opt_adaptiveSampling options)
               (adaptiveSampling DEFAULT_MOTION_BLUR_CONFIG),
           adaptiveMinSamples =
             max 1
               (nullish (opt_adaptiveMinSamples options)
                  (adaptiveMinSamples DEFAULT_MOTION_BLUR_CONFIG)),
           shutterPhase = clampShutterPhase (resolveShutterPhase options)\<rparr>)"

text \<open>
  The range invariants of a resolved configuration (the data model's table), as far as the
  resolver establishes them: an integral sample count in [1,64], a shutter angle in
  [0,720], a shutter phase in [-360,360], and a minimum sample count of at least 1.
\<close>

definition resolvedConfig :: "MotionBlurConfig \<Rightarrow> bool" where
  "resolvedConfig c =
     (isInteger (samples c) \<and> 1 \<le> samples c \<and> samples c \<le> 64 \<and>
      0 \<le> shutterAngle c \<and> shutterAngle c \<le> 720 \<and>
      - 360 \<le> shutterPhase c \<and> shutterPhase c \<le> 360 \<and>
      1 \<le> adaptiveMinSamples c)"

section \<open>Sub-frame sampling (MotionBlur.ts)\<close>

text \<open>
  What a function of the source can end in besides a value: \<open>RangeError\<close> is the
  exception of \<^verbatim>\<open>Array(n)\<close> for a length that is not an integer in [0, 2^32);
  \<open>NotFinite\<close> marks a division by zero, whose result in the source is NaN or an
  infinity, where the model of numbers as reals ends.
\<close>

datatype error = RangeError | NotFinite

text \<open>
  The loops of the source that push one value per index,
  \<^verbatim>\<open>for (let i = 0; i < samples; i++) { xs.push(f(i)) }\<close>, with \<^verbatim>\<open>samples\<close> a number:
  the loop runs while the integer counter is below the bound.
\<close>

function pushLoop :: "real \<Rightarrow> (nat \<Rightarrow> real) \<Rightarrow> nat \<Rightarrow> real list \<Rightarrow> real list" where
  "pushLoop bound f i xs = (if real i < bound then pushLoop bound f (Suc i) (xs @ [f i]) else xs)"
  by pat_completeness auto
termination
proof (relation "measure (\<lambda>(bound, f, i, xs). nat \<lceil>bound\<rceil> - i)")
  show "wf (measure (\<lambda>(bound, f, i, xs). nat \<lceil>bound\<rceil> - i))"
    by simp
next
  fix bound :: real and f :: "nat \<Rightarrow> real" and i :: nat and xs :: "real list"
  assume "real i < bound"
  then have "int i < \<lceil>bound\<rceil>"
    by linarith
  then show "((bound, f, Suc i, xs @ [f i]), (bound, f, i, xs))
      \<in> measure (\<lambda>(bound, f, i, xs). nat \<lceil>bound\<rceil> - i)"
    by simp
qed

declare pushLoop.simps [simp del]

definition calculateSubframeOffsets :: "MotionBlurConfig \<Rightarrow> real \<Rightarrow> real list" where
  "calculateSubframeOffsets config frameDuration =
     (let shutterFraction = shutterAngle config / 360;
          exposureTime = frameDuration * shutterFraction;
          phaseOffset = (shutterPhase config / 360) * frameDuration
      in pushLoop (samples config)
           (\<lambda>i. let samplePosition =
                       (if samples config = 1 then 1 / 2 else real i / (samples config - 1))
                in phaseOffset + samplePosition * exposureTime - exposureTime / 2)
           0 [])"

text \<open>
  \<^verbatim>\<open>Array(samples).fill(1)\<close>: \<^verbatim>\<open>Array(n)\<close> raises RangeError unless \<open>n\<close> is an
  integer in [0, 2^32).
\<close>

definition calculateBoxWeights :: "real \<Rightarrow> error + real list" where
  "calculateBoxWeights samples' =
     (if isInteger samples' \<and> 0 \<le> samples' \<and> samples' < 2 ^ 32
      then Inr (replicate (nat \<lfloor>samples'\<rfloor>) 1)
      else Inl RangeError)"

text \<open>
  In both loops below the divisor is positive whenever the body runs, since the body
  runs only for \<open>0 \<le> i < samples\<close>.
\<close>

definition calculateTriangleWeights :: "real \<Rightarrow> real list" where
  "calculateTriangleWeights samples' =
     (let center = (samples' - 1) / 2
      in pushLoop samples'
           (\<lambda>i. let distance = \<bar>real i - center\<bar> / (samples' / 2) in 1 - distance)
           0 [])"

definition calculateGaussianWeights :: "real \<Rightarrow> real list" where
  "calculateGaussianWeights samples' =
     (let center = (samples' - 1) / 2;
          sigma = samples' / 4
      in pushLoop samples'
           (\<lambda>i. let x = real i - center in exp (- (x * x) / (2 * sigma * sigma)))
           0 [])"

text \<open>
  The weight the three functions above give index \<open>i\<close> of \<open>n\<close> samples, before
  normalisation: the bodies of their loops, by curve, for stating facts about them at
  once.
\<close>

definition rawWeight :: "ShutterCurve \<Rightarrow> nat \<Rightarrow> nat \<Rightarrow> real" where
  "rawWeight curve n i =
     (case curve of
        Box \<Rightarrow> 1
      | Triangle \<Rightarrow> 1 - \<bar>real i - (real n - 1) / 2\<bar> / (real n / 2)
      | Gaussian \<Rightarrow>
          exp (- ((real i - (real n - 1) / 2) * (real i - (real n - 1) / 2))
                 / (2 * (real n / 4) * (real n / 4))))"

text \<open>
  \<^verbatim>\<open>weights.reduce((a, b) => a + b, 0)\<close> is a left fold; \<^verbatim>\<open>weights.map(w => w / sum)\<close>
  divides only when there is a weight, and then a zero sum ends in \<open>NotFinite\<close>.
\<close>

definition calculateSubframeWeights :: "MotionBlurConfig \<Rightarrow> error + real list" where
  "calculateSubframeWeights config =
     (case (case shutterCurve config of
              Triangle \<Rightarrow> Inr (calculateTriangleWeights (samples config))
            | Gaussian \<Rightarrow> Inr (calculateGaussianWeights (samples config))
            | Box \<Rightarrow> calculateBoxWeights (samples config)) of
        Inl e \<Rightarrow> Inl e
      | Inr weights \<Rightarrow>
          (let sum = foldl (\<lambda>a b. a + b) 0 weights
           in if weights = [] then Inr []
              else if sum = 0 then Inl NotFinite
              else Inr (map (\<lambda>w. w / sum) weights)))"

text \<open>
  \<^verbatim>\<open>calculateAdaptiveSamples(config, velocity, threshold = 50)\<close>: the third argument
  may be absent. With adaptive sampling on and a threshold of 0 the quotient
  \<^verbatim>\<open>velocity / threshold\<close> is not a finite number, and the source goes on with it:
  \<^item> for a positive velocity it is plus infinity, \<^verbatim>\<open>Math.min(1, .)\<close> makes the scale 1,
    and the result is the one of a velocity at the threshold;
  \<^item> for velocity 0 it is NaN, and so is the result (\<open>NotFinite\<close>);
  \<^item> for a negative velocity it is minus infinity, and so is the scale: with \<open>samples\<close>
    above the minimum the interpolation is minus infinity and \<^verbatim>\<open>Math.max\<close> returns the
    minimum; with \<open>samples\<close> equal to the minimum it is NaN, and with \<open>samples\<close> below
    the minimum plus infinity, which is then the result (\<open>NotFinite\<close>).

  The zero of the reals stands for the positive zero of the doubles.
\<close>

definition calculateAdaptiveSamples ::
    "MotionBlurConfig \<Rightarrow> real \<Rightarrow> real option \<Rightarrow> error + real" where
  "calculateAdaptiveSamples config velocity thresholdArg =
     (let threshold = nullish thresholdArg 50
      in if \<not> adaptiveSampling config then Inr (samples config)
         else if threshold = 0 then
           (if 0 < velocity then
              Inr (max (adaptiveMinSamples config)
                     (Math_round
                        (adaptiveMinSamples config
                          + (samples config - adaptiveMinSamples config) * 1)))
            else if velocity = 0 then Inl NotFinite
            else if adaptiveMinSamples config < samples config
              then Inr (adaptiveMinSamples config)
            else Inl NotFinite)
         else
           (let scale = min 1 (velocity / threshold);
                adaptedSamples =
                  Math_round
                    (adaptiveMinSamples config
                      + (samples config - adaptiveMinSamples config) * scale)
            in Inr (max (adaptiveMinSamples config) adaptedSamples)))"

section \<open>The stage and its accumulation buffer (Stage.ts)\<close>

subsection \<open>What the stage uses from outside\<close>

text \<open>
  Modelled from the spec: \<^verbatim>\<open>Vector2\<close> is imported from \<^verbatim>\<open>../types\<close> and is not among
  the sources. The spec knows it only as the width and height of the canvas, so it is
  modelled as the stage uses it: a pair of numbers read through \<^verbatim>\<open>width\<close> and
  \<^verbatim>\<open>height\<close>, with \<^verbatim>\<open>exactlyEquals\<close> comparing both components and \<^verbatim>\<open>scale\<close>
  multiplying both.
\<close>

record Vector2 =
  width :: real
  height :: real

definition exactlyEquals :: "Vector2 \<Rightarrow> Vector2 \<Rightarrow> bool" where
  "exactlyEquals a b = (width a = width b \<and> height a = height b)"

definition Vector2_scale :: "Vector2 \<Rightarrow> real \<Rightarrow> Vector2" where
  "Vector2_scale v k = \<lparr>width = width v * k, height = height v * k\<rparr>"

datatype CanvasColorSpace = Srgb | DisplayP3

text \<open>
  The canvas of the browser is the stage's environment. A canvas is its width, its
  height and its RGBA channel values (row by row, four per pixel, each in 0..255). The
  model takes dimensions as naturals (a number is truncated, \<open>toDimension\<close>), reads
  a channel outside the data as 0 (transparent black), and lets every call succeed: the
  browser's own refusals (an image of width or height 0, an allocation that is too
  large) are not part of it. A rendering context stands for its canvas;
  \<^verbatim>\<open>getContext\<close> (not among the sources) changes no pixel.
\<close>

record Canvas =
  canvas_width :: nat
  canvas_height :: nat
  canvas_data :: "nat list"

definition toDimension :: "real \<Rightarrow> nat" where
  "toDimension x = nat \<lfloor>x\<rfloor>"

definition channelAt :: "nat list \<Rightarrow> nat \<Rightarrow> nat" where
  "channelAt d k = (if k < length d then d ! k else 0)"

text \<open>\<^verbatim>\<open>context.getImageData(0, 0, sw, sh).data\<close>: the rectangle at the origin.\<close>

definition getImageData :: "Canvas \<Rightarrow> nat \<Rightarrow> nat \<Rightarrow> nat list" where
  "getImageData c sw sh =
     map (\<lambda>k. let x = (k div 4) mod sw; y = (k div 4) div sw
              in if x < canvas_width c \<and> y < canvas_height c
                 then channelAt (canvas_data c) ((y * canvas_width c + x) * 4 + k mod 4)
                 else 0)
       [0..<4 * sw * sh]"

text \<open>\<^verbatim>\<open>context.createImageData(sw, sh).data\<close>: transparent black.\<close>

definition createImageData :: "nat \<Rightarrow> nat \<Rightarrow> nat list" where
  "createImageData sw sh = replicate (4 * sw * sh) 0"

text \<open>
  \<^verbatim>\<open>context.putImageData(imageData, 0, 0)\<close> for image data of \<open>sw\<close> by \<open>sh\<close> pixels:
  the pixels of the canvas that the image covers are replaced, the others stay.
\<close>

definition putImageData :: "Canvas \<Rightarrow> nat list \<Rightarrow> nat \<Rightarrow> nat \<Rightarrow> Canvas" where
  "putImageData c img sw sh =
     c\<lparr>canvas_data :=
         map (\<lambda>k. let x = (k div 4) mod canvas_width c; y = (k div 4) div canvas_width c
                  in if x < sw \<and> y < sh
                     then channelAt img ((y * sw + x) * 4 + k mod 4)
                     else channelAt (canvas_data c) k)
           [0..<4 * canvas_width c * canvas_height c]\<rparr>"

text \<open>
  A store into a \<^verbatim>\<open>Uint8ClampedArray\<close>: clamped to 0..255, rounded to the nearest
  integer, a tie to the even one.
\<close>

definition toUint8Clamp :: "real \<Rightarrow> nat" where
  "toUint8Clamp v =
     (if v \<le> 0 then 0
      else if 255 \<le> v then 255
      else (let f = \<lfloor>v\<rfloor>
            in nat (if v - of_int f < 1 / 2 then f
                    else if 1 / 2 < v - of_int f then f + 1
                    else if even f then f else f + 1)))"

text \<open>
  \<^verbatim>\<open>new Float32Array(length)\<close>: zero-filled, the length truncated (a negative length,
  which the constructor refuses, does not arise from dimensions that are not negative).
  The elements are modelled as reals: the rounding of a stored value to single precision
  is outside the model.
\<close>

definition new_Float32Array :: "real \<Rightarrow> real list" where
  "new_Float32Array len = replicate (nat \<lfloor>len\<rfloor>) 0"

subsection \<open>The stage\<close>

text \<open>
  The fields of \<^verbatim>\<open>class Stage\<close>; \<open>stageSize\<close> is the field \<^verbatim>\<open>size\<close>. The three
  contexts are the contexts of the three canvases.
\<close>

record Stage =
  background :: "string option"
  resolutionScale :: real
  colorSpace :: CanvasColorSpace
  stageSize :: Vector2
  motionBlurConfig :: MotionBlurConfig
  finalBuffer :: Canvas
  currentBuffer :: Canvas
  previousBuffer :: Canvas
  accumulationBuffer :: "real list option"
  accumulationSamples :: nat

text \<open>
  \<^verbatim>\<open>background: Color | string | null\<close>; a \<^verbatim>\<open>Color\<close> (not among the sources) is
  represented by the string its \<^verbatim>\<open>serialize()\<close> returns.
\<close>

datatype BackgroundArg = BackgroundString string | BackgroundColor string | BackgroundNull

text \<open>\<^verbatim>\<open>Partial<StageSettings>\<close>: every field may be absent.\<close>

record StageSettings =
  set_size :: "Vector2 option"
  set_resolutionScale :: "real option"
  set_colorSpace :: "CanvasColorSpace option"
  set_background :: "BackgroundArg option"
  set_motionBlur :: "MotionBlurOptions option"

definition canvasSize :: "Stage \<Rightarrow> Vector2" where
  "canvasSize s = Vector2_scale (stageSize s) (resolutionScale s)"

text \<open>
  \<^verbatim>\<open>resizeCanvas(context)\<close>: assigning a canvas its width and height clears it.
\<close>

definition resizeCanvas :: "Stage \<Rightarrow> Canvas \<Rightarrow> Canvas" where
  "resizeCanvas s c =
     (let sz = canvasSize s;
          w = toDimension (width sz);
          h = toDimension (height sz)
      in c\<lparr>canvas_width := w, canvas_height := h, canvas_data := replicate (4 * w * h) 0\<rparr>)"

definition serializeBackground :: "BackgroundArg \<Rightarrow> string option" where
  "serializeBackground b =
     (case b of
        BackgroundString str \<Rightarrow> Some str
      | BackgroundColor serialized \<Rightarrow> Some serialized
      | BackgroundNull \<Rightarrow> None)"

definition configure :: "StageSettings \<Rightarrow> Stage \<Rightarrow> Stage" where
  "configure settings s0 =
     (let colorSpace' = nullish (set_colorSpace settings) (colorSpace s0);
          size' = nullish (set_size settings) (stageSize s0);
          resolutionScale' = nullish (set_resolutionScale settings) (resolutionScale s0);
          background' =
            nullish (set_background settings)
              (case background s0 of None \<Rightarrow> BackgroundNull | Some str \<Rightarrow> BackgroundString str);
          s1 = (if colorSpace' \<noteq> colorSpace s0 then s0\<lparr>colorSpace := colorSpace'\<rparr> else s0);
          s2 =
            (if \<not> exactlyEquals size' (stageSize s1) \<or> resolutionScale' \<noteq> resolutionScale s1
             then
               (let s = s1\<lparr>resolutionScale := resolutionScale', stageSize := size'\<rparr>
                in s\<lparr>finalBuffer := resizeCanvas s (finalBuffer s),
                     currentBuffer := resizeCanvas s (currentBuffer s),
                     previousBuffer := resizeCanvas s (previousBuffer s),
                     accumulationBuffer := None\<rparr>)
             else s1);
          s3 = s2\<lparr>background := serializeBackground background'\<rparr>
      in case set_motionBlur settings of
           None \<Rightarrow> s3
         | Some motionBlur \<Rightarrow> s3\<lparr>motionBlurConfig := resolveMotionBlurConfig (Some motionBlur)\<rparr>)"

definition beginMotionBlurAccumulation :: "Stage \<Rightarrow> Stage" where
  "beginMotionBlurAccumulation s =
     (let sz = canvasSize s;
          bufferSize = width sz * height sz * 4
      in s\<lparr>accumulationBuffer :=
             Some (case accumulationBuffer s of
                     None \<Rightarrow> new_Float32Array bufferSize
                   | Some buf \<Rightarrow>
                       if real (length buf) \<noteq> bufferSize then new_Float32Array bufferSize
                       else map (\<lambda>v. 0) buf),
           accumulationSamples := 0\<rparr>)"

text \<open>
  \<^verbatim>\<open>for (let i = 0; i < pixels.length; i++) accumulationBuffer[i] += pixels[i] * weight\<close>.
  A store past the end of a typed array is dropped, as a list update past the end is.
\<close>

function accumulateLoop :: "nat list \<Rightarrow> real \<Rightarrow> nat \<Rightarrow> real list \<Rightarrow> real list" where
  "accumulateLoop pixels weight i buf =
     (if i < length pixels
      then accumulateLoop pixels weight (Suc i) (buf[i := buf ! i + real (pixels ! i) * weight])
      else buf)"
  by pat_completeness auto
termination
  by (relation "measure (\<lambda>(pixels, weight, i, buf). length pixels - i)") auto

declare accumulateLoop.simps [simp del]

definition accumulateMotionBlurSample :: "real \<Rightarrow> Stage \<Rightarrow> Stage" where
  "accumulateMotionBlurSample weight s =
     (case accumulationBuffer s of
        None \<Rightarrow> s
      | Some buf \<Rightarrow>
          (let sz = canvasSize s;
               pixels =
                 getImageData (finalBuffer s) (toDimension (width sz)) (toDimension (height sz))
           in s\<lparr>accumulationBuffer := Some (accumulateLoop pixels weight 0 buf),
                accumulationSamples := Suc (accumulationSamples s)\<rparr>))"

text \<open>
  The value \<^verbatim>\<open>finalizeMotionBlur\<close> stores at index \<open>i\<close>:
  \<^verbatim>\<open>Math.round(Math.min(255, Math.max(0, accumulationBuffer[i])))\<close>. A read past the end
  of the buffer is \<^verbatim>\<open>undefined\<close>, the arithmetic on it NaN, and NaN is stored as 0.
\<close>

definition finalPixel :: "real list \<Rightarrow> nat \<Rightarrow> nat" where
  "finalPixel buf i =
     (if i < length buf then toUint8Clamp (Math_round (min 255 (max 0 (buf ! i)))) else 0)"

function finalizeLoop :: "real list \<Rightarrow> nat \<Rightarrow> nat list \<Rightarrow> nat list" where
  "finalizeLoop buf i pixels =
     (if i < length pixels
      then finalizeLoop buf (Suc i) (pixels[i := finalPixel buf i])
      else pixels)"
  by pat_completeness auto
termination
  by (relation "measure (\<lambda>(buf, i, pixels). length pixels - i)") auto

declare finalizeLoop.simps [simp del]

definition finalizeMotionBlur :: "Stage \<Rightarrow> Stage" where
  "finalizeMotionBlur s =
     (case accumulationBuffer s of
        None \<Rightarrow> s
      | Some buf \<Rightarrow>
          if accumulationSamples s = 0 then s
          else
            (let sz = canvasSize s;
                 w = toDimension (width sz);
                 h = toDimension (height sz);
                 pixels = finalizeLoop buf 0 (createImageData w h)
             in s\<lparr>finalBuffer := putImageData (finalBuffer s) pixels w h\<rparr>))"

text \<open>
  \<^verbatim>\<open>renderWithMotionBlur(renderCallback, subframeOffsets, weights)\<close>. The callback is
  modelled as a transformer of the stage that returns (its promise resolves): whatever it
  does to the stage, by rendering or otherwise, is its result. The second component of
  the result is not part of the source: it records, in order, the calls the method makes.
\<close>

datatype call = CallBegin | CallRender real | CallAccumulate real | CallFinalize

text \<open>
  The loop runs only after the guard has made both lists equally long, so
  \<^verbatim>\<open>weights[i]\<close> is in range whenever \<^verbatim>\<open>subframeOffsets[i]\<close> is.
\<close>

function renderLoop ::
    "(real \<Rightarrow> Stage \<Rightarrow> Stage) \<Rightarrow> real list \<Rightarrow> real list \<Rightarrow> nat \<Rightarrow> Stage \<times> call list
      \<Rightarrow> Stage \<times> call list" where
  "renderLoop renderCallback subframeOffsets weights i (s, calls) =
     (if i < length subframeOffsets
      then renderLoop renderCallback subframeOffsets weights (Suc i)
             (accumulateMotionBlurSample (weights ! i) (renderCallback (subframeOffsets ! i) s),
              calls @ [CallRender (subframeOffsets ! i), CallAccumulate (weights ! i)])
      else (s, calls))"
  by pat_completeness auto
termination
  by (relation "measure (\<lambda>(renderCallback, subframeOffsets, weights, i, sc).
        length subframeOffsets - i)") auto

declare renderLoop.simps [simp del]

definition renderWithMotionBlur ::
    "(real \<Rightarrow> Stage \<Rightarrow> Stage) \<Rightarrow> real list \<Rightarrow> real list \<Rightarrow> Stage \<Rightarrow> Stage \<times> call list" where
  "renderWithMotionBlur renderCallback subframeOffsets weights s =
     (if length subframeOffsets = 0 \<or> length subframeOffsets \<noteq> length weights
      then (s, [])
      else
        (case renderLoop renderCallback subframeOffsets weights 0
                (beginMotionBlurAccumulation s, [CallBegin]) of
           (s', calls) \<Rightarrow> (finalizeMotionBlur s', calls @ [CallFinalize])))"

subsection \<open>Sized stages\<close>

text \<open>
  A sized stage: the visible canvas has the dimensions of \<open>canvasSize\<close>, as
  \<^verbatim>\<open>resizeCanvas\<close> leaves it, and an accumulation buffer has an accumulator for every
  channel of every pixel, as \<^verbatim>\<open>beginMotionBlurAccumulation\<close> allocates it.
\<close>

definition stageSized :: "Stage \<Rightarrow> bool" where
  "stageSized s =
     (let w = toDimension (width (canvasSize s)); h = toDimension (height (canvasSize s))
      in canvas_width (finalBuffer s) = w \<and> canvas_height (finalBuffer s) = h
         \<and> (case accumulationBuffer s of None \<Rightarrow> True | Some buf \<Rightarrow> 4 * w * h \<le> length buf))"

subsection \<open>Example values\<close>

text \<open>
  A stage for the examples below: one pixel, with an accumulation in progress.
\<close>

definition exampleStage :: Stage where
  "exampleStage =
     \<lparr>background = None, resolutionScale = 1, colorSpace = Srgb,
      stageSize = \<lparr>width = 1, height = 1\<rparr>,
      motionBlurConfig = DEFAULT_MOTION_BLUR_CONFIG,
      finalBuffer = \<lparr>canvas_width = 1, canvas_height = 1, canvas_data = [10, 20, 30, 255]\<rparr>,
      currentBuffer = \<lparr>canvas_width = 1, canvas_height = 1, canvas_data = [0, 0, 0, 0]\<rparr>,
      previousBuffer = \<lparr>canvas_width = 1, canvas_height = 1, canvas_data = [0, 0, 0, 0]\<rparr>,
      accumulationBuffer = Some [62 / 5, 300, - 5, 509 / 2],
      accumulationSamples = 2\<rparr>"

text \<open>The settings object \<^verbatim>\<open>{}\<close>.\<close>

definition noSettings :: StageSettings where
  "noSettings =
     \<lparr>set_size = None, set_resolutionScale = None, set_colorSpace = None,
      set_background = None, set_motionBlur = None\<rparr>"

section \<open>Properties of the configuration resolver\<close>

lemma Math_round_of_int: "Math_round (of_int k) = of_int k"
proof -
  have "\<lfloor>(of_int k :: real) + 1 / 2\<rfloor> = k"
    by linarith
  then show ?thesis
    by (simp add: Math_round_def)
qed

lemma isInteger_Math_round: "isInteger (Math_round x)"
  by (simp add: Math_round_def isInteger_def)

lemma isInteger_clampSamples: "isInteger (clampSamples s)"
proof -
  have "clampSamples s = of_int (max 1 (min 64 \<lfloor>s + 1 / 2\<rfloor>))"
    by (simp add: clampSamples_def Math_round_def max_def min_def)
  then show ?thesis
    by (simp add: isInteger_def)
qed

lemma clampSamples_range: "1 \<le> clampSamples s \<and> clampSamples s \<le> 64"
  by (simp add: clampSamples_def)

lemma clampSamples_fixed:
  assumes "isInteger s" and "1 \<le> s" and "s \<le> 64"
  shows "clampSamples s = s"
proof -
  from assms(1) have "Math_round s = s"
    by (metis Math_round_of_int isInteger_def)
  with assms(2,3) show ?thesis
    by (simp add: clampSamples_def)
qed

lemmas resolve_defs =
  resolveMotionBlurConfig_def resolveSamples_def resolveShutterPhase_def
  DEFAULT_MOTION_BLUR_CONFIG_def nullish_def falsyNumber_def noOptions_def asOptions_def
  clampSamples_def clampShutterAngle_def clampShutterPhase_def Math_round_def

lemma resolve_resolvedConfig: "resolvedConfig (resolveMotionBlurConfig opts)"
proof (cases opts)
  case None
  then show ?thesis
    by (simp add: resolvedConfig_def resolveMotionBlurConfig_def DEFAULT_MOTION_BLUR_CONFIG_def
        isInteger_def)
next
  case (Some options)
  then show ?thesis
    by (simp add: resolvedConfig_def resolveMotionBlurConfig_def isInteger_clampSamples
        clampSamples_range clampShutterAngle_def clampShutterPhase_def)
qed

text \<open>
  An explicit sample count other than 0 wins over the preset, and the preset is used
  when no sample count is given.
\<close>

lemma resolve_samples_explicit_nonzero:
  assumes "s \<noteq> 0"
  shows "samples (resolveMotionBlurConfig
            (Some (options\<lparr>opt_quality := Some q, opt_samples := Some s\<rparr>)))
         = max 1 (min 64 (Math_round s))"
  using assms
  by (simp add: resolveMotionBlurConfig_def resolveSamples_def nullish_def falsyNumber_def
      clampSamples_def)

lemma resolve_samples_from_quality:
  "samples (resolveMotionBlurConfig
      (Some (options\<lparr>opt_quality := Some q, opt_samples := None\<rparr>)))
   = QUALITY_SAMPLES q"
  by (cases q)
    (simp_all add: resolveMotionBlurConfig_def resolveSamples_def nullish_def falsyNumber_def
      clampSamples_def Math_round_def)

text \<open>
  Claim C1 (explicit samples win over the quality preset, for every number). The source
  tests \<^verbatim>\<open>!options.samples\<close>, which also holds for an explicit 0: with the preset
  \<^verbatim>\<open>ultra\<close> and \<^verbatim>\<open>samples: 0\<close> the resolver returns the preset's 32 samples, where
  the claim (and the clamp of the explicit value) gives 1.
\<close>

theorem C1_zero_samples_lose_to_quality:
  "samples (resolveMotionBlurConfig
      (Some (noOptions\<lparr>opt_quality := Some Ultra, opt_samples := Some 0\<rparr>))) = 32
   \<and> max 1 (min 64 (Math_round 0)) = (1 :: real)"
  by (simp add: resolve_defs)

text \<open>
  Claim C2 (the resolver is idempotent). Resolving \<^verbatim>\<open>{shutterPhase: 0}\<close> gives phase 0
  with the default position \<^verbatim>\<open>center\<close> and angle 180; resolving that result again
  finds a position and a falsy phase and derives the phase -90 from the position.
\<close>

theorem C2_resolve_twice_differs:
  "shutterPhase (resolveMotionBlurConfig (Some (noOptions\<lparr>opt_shutterPhase := Some 0\<rparr>))) = 0
   \<and> shutterPhase
        (resolveMotionBlurConfig
          (Some (asOptions
            (resolveMotionBlurConfig (Some (noOptions\<lparr>opt_shutterPhase := Some 0\<rparr>))))))
      = - 90"
  by (simp add: resolve_defs)

text \<open>
  Apart from a resolved phase of 0, resolving a resolved configuration returns it.
\<close>

lemma resolve_again:
  assumes "resolvedConfig r" and "shutterPhase r \<noteq> 0"
  shows "resolveMotionBlurConfig (Some (asOptions r)) = r"
proof -
  from assms(1) have "isInteger (samples r)" "1 \<le> samples r" "samples r \<le> 64"
    by (simp_all add: resolvedConfig_def)
  then have s: "clampSamples (samples r) = samples r"
    by (rule clampSamples_fixed)
  from assms(1) have a: "clampShutterAngle (shutterAngle r) = shutterAngle r"
    and p: "clampShutterPhase (shutterPhase r) = shutterPhase r"
    and m: "max 1 (adaptiveMinSamples r) = adaptiveMinSamples r"
    by (simp_all add: resolvedConfig_def clampShutterAngle_def clampShutterPhase_def)
  from assms(2) have "resolveMotionBlurConfig (Some (asOptions r))
      = \<lparr>enabled = enabled r, samples = clampSamples (samples r),
         shutterAngle = clampShutterAngle (shutterAngle r), shutterCurve = shutterCurve r,
         shutterPosition = shutterPosition r, adaptiveSampling = adaptiveSampling r,
         adaptiveMinSamples = max 1 (adaptiveMinSamples r),
         shutterPhase = clampShutterPhase (shutterPhase r)\<rparr>"
    by (simp add: resolveMotionBlurConfig_def resolveSamples_def resolveShutterPhase_def
        asOptions_def nullish_def falsyNumber_def)
  then show ?thesis
    by (simp add: s a p m)
qed

lemma resolve_idempotent_nonzero_phase:
  assumes "shutterPhase (resolveMotionBlurConfig opts) \<noteq> 0"
  shows "resolveMotionBlurConfig (Some (asOptions (resolveMotionBlurConfig opts)))
    = resolveMotionBlurConfig opts"
  using resolve_resolvedConfig assms by (rule resolve_again)

text \<open>
  A non-zero explicit phase is used directly, whatever the position.
\<close>

lemma resolve_phase_explicit_nonzero:
  assumes "ph \<noteq> 0"
  shows "shutterPhase (resolveMotionBlurConfig
            (Some (options\<lparr>opt_shutterPhase := Some ph\<rparr>)))
         = max (- 360) (min 360 ph)"
  using assms
  by (simp add: resolveMotionBlurConfig_def resolveShutterPhase_def nullish_def
      falsyNumber_def clampShutterPhase_def split: option.splits)

text \<open>
  Claim C3 (an explicit shutterPhase is used directly, also next to a shutterPosition).
  The source tests \<^verbatim>\<open>!options.shutterPhase\<close>, which also holds for an explicit 0:
  with \<^verbatim>\<open>shutterPhase: 0\<close> and \<^verbatim>\<open>shutterPosition: 'end'\<close> the resolver returns the
  phase -180 derived from the position, where the claim gives the supplied 0.
\<close>

theorem C3_zero_phase_loses_to_position:
  "shutterPhase (resolveMotionBlurConfig
      (Some (noOptions\<lparr>opt_shutterPhase := Some 0, opt_shutterPosition := Some End\<rparr>)))
   = - 180
   \<and> clampShutterPhase 0 = 0"
  by (simp add: resolve_defs)

text \<open>
  Claim C4, as stated, asks for an integral adaptiveMinSamples. The resolver only takes
  the maximum with 1: the supplied 2.5 is returned as it is.
\<close>

theorem C4_counterexample:
  "\<not> (isInteger (adaptiveMinSamples (resolveMotionBlurConfig
          (Some (noOptions\<lparr>opt_adaptiveMinSamples := Some (5 / 2)\<rparr>))))
      \<and> 1 \<le> adaptiveMinSamples (resolveMotionBlurConfig
          (Some (noOptions\<lparr>opt_adaptiveMinSamples := Some (5 / 2)\<rparr>))))"
  by (simp add: resolve_defs isInteger_def)

text \<open>
  Claim C4, amended: for every input, absent or any options, the result has an integral
  sample count in [1,64], a shutter angle in [0,720], a shutter phase in [-360,360] and
  an adaptiveMinSamples of at least 1; adaptiveMinSamples is the maximum of 1 and the
  supplied value (2 when none is supplied), so it is an integer whenever the supplied
  value is one.
\<close>

theorem C4_resolved_in_range:
  "resolvedConfig (resolveMotionBlurConfig opts)
   \<and> adaptiveMinSamples (resolveMotionBlurConfig opts)
       = max 1 (case opts of None \<Rightarrow> 2 | Some options \<Rightarrow> nullish (opt_adaptiveMinSamples options) 2)
   \<and> (isInteger (case opts of None \<Rightarrow> 2 | Some options \<Rightarrow> nullish (opt_adaptiveMinSamples options) 2)
        \<longrightarrow> isInteger (adaptiveMinSamples (resolveMotionBlurConfig opts)))"
proof -
  let ?v = "case opts of None \<Rightarrow> 2 | Some options \<Rightarrow> nullish (opt_adaptiveMinSamples options) 2"
  have eq: "adaptiveMinSamples (resolveMotionBlurConfig opts) = max 1 ?v"
    by (cases opts) (simp_all add: resolveMotionBlurConfig_def DEFAULT_MOTION_BLUR_CONFIG_def)
  have "isInteger (max 1 ?v)" if "isInteger ?v"
  proof (cases "1 \<le> ?v")
    case True
    with that show ?thesis by (simp add: max_def)
  next
    case False
    then show ?thesis by (simp add: max_def isInteger_def)
  qed
  with eq resolve_resolvedConfig [of opts] show ?thesis
    by simp
qed

text \<open>
  The amended claim at \<^verbatim>\<open>{adaptiveMinSamples: 3}\<close>.
\<close>

theorem C4_resolved_in_range_witness:
  "isInteger 3
   \<and> resolvedConfig (resolveMotionBlurConfig
        (Some (noOptions\<lparr>opt_adaptiveMinSamples := Some 3\<rparr>)))
   \<and> adaptiveMinSamples (resolveMotionBlurConfig
        (Some (noOptions\<lparr>opt_adaptiveMinSamples := Some 3\<rparr>))) = 3
   \<and> isInteger (adaptiveMinSamples (resolveMotionBlurConfig
        (Some (noOptions\<lparr>opt_adaptiveMinSamples := Some 3\<rparr>))))"
proof -
  have three: "isInteger 3"
    by (simp add: isInteger_def)
  have v: "(case Some (noOptions\<lparr>opt_adaptiveMinSamples := Some 3\<rparr>) of
              None \<Rightarrow> 2 | Some options \<Rightarrow> nullish (opt_adaptiveMinSamples options) 2) = 3"
    by (simp add: nullish_def)
  from C4_resolved_in_range [of "Some (noOptions\<lparr>opt_adaptiveMinSamples := Some 3\<rparr>)"]
  show ?thesis
    unfolding v using three by simp
qed

section \<open>Properties of the sub-frame sampling\<close>

text \<open>The push loops as maps over the indices below an integral bound.\<close>

lemma pushLoop_eq:
  "i \<le> n \<Longrightarrow> pushLoop (real n) f i xs = xs @ map f [i..<n]"
proof (induction "n - i" arbitrary: i xs)
  case 0
  then have "i = n" by simp
  then show ?case by (subst pushLoop.simps) simp
next
  case (Suc d)
  then have lt: "i < n" and d: "d = n - Suc i" by simp_all
  from lt have "pushLoop (real n) f i xs = pushLoop (real n) f (Suc i) (xs @ [f i])"
    by (subst pushLoop.simps) simp
  also from Suc(1) [OF d] lt have "\<dots> = (xs @ [f i]) @ map f [Suc i..<n]"
    by simp
  also from lt have "\<dots> = xs @ map f [i..<n]"
    by (simp add: upt_conv_Cons)
  finally show ?case .
qed

lemma pushLoop_map: "pushLoop (real n) f 0 [] = map f [0..<n]"
  using pushLoop_eq [of 0 n f "[]"] by simp

lemma resolved_samples_nat:
  assumes "resolvedConfig c"
  obtains n where "samples c = real n" and "1 \<le> n" and "n \<le> 64"
proof -
  define k where "k = \<lfloor>samples c\<rfloor>"
  from assms have "of_int \<lfloor>samples c\<rfloor> = samples c"
    unfolding resolvedConfig_def isInteger_def by (rule conjunct1)
  then have sk: "samples c = of_int k"
    by (simp only: k_def)
  from assms have "1 \<le> samples c" and "samples c \<le> 64"
    by (simp_all add: resolvedConfig_def)
  then have k1: "1 \<le> k" and k64: "k \<le> 64"
    unfolding sk by simp_all
  from sk k1 have "samples c = real (nat k)"
    by simp
  moreover from k1 k64 have "1 \<le> nat k" and "nat k \<le> 64"
    by simp_all
  ultimately show thesis
    by (rule that)
qed

lemma offsets_map:
  assumes "samples c = real n"
  shows "calculateSubframeOffsets c fd =
     map (\<lambda>i. (shutterPhase c / 360) * fd
               + (if n = 1 then 1 / 2 else real i / (real n - 1)) * (fd * (shutterAngle c / 360))
               - (fd * (shutterAngle c / 360)) / 2) [0..<n]"
  using assms by (simp add: calculateSubframeOffsets_def Let_def pushLoop_map)

lemma spaced_aux:
  fixes m :: real
  assumes "m \<noteq> 1"
  shows "(p + (i + 1) / (m - 1) * E - E / 2) - (p + i / (m - 1) * E - E / 2) = E / (m - 1)"
proof -
  have "(i + 1) / (m - 1) * E - i / (m - 1) * E = ((i + 1) - i) / (m - 1) * E"
    by (simp only: diff_divide_distrib left_diff_distrib)
  then show ?thesis by simp
qed

lemma sym_aux:
  fixes m :: real
  assumes "m \<noteq> 1"
  shows "(p + i / (m - 1) * E - E / 2) + (p + (m - 1 - i) / (m - 1) * E - E / 2) = 2 * p"
proof -
  from assms have nz: "m - 1 \<noteq> 0" by simp
  have "i / (m - 1) * E + (m - 1 - i) / (m - 1) * E = (i + (m - 1 - i)) / (m - 1) * E"
    by (simp only: add_divide_distrib distrib_right)
  also have "\<dots> = E"
    using nz by simp
  finally show ?thesis by simp
qed

text \<open>
  Claim C5. For a resolved configuration and any frame duration, with
  phaseOffset = (shutterPhase/360) * frameDuration and
  exposureTime = frameDuration * (shutterAngle/360): calculateSubframeOffsets returns
  exactly \<open>samples\<close> offsets; for one sample the offset is phaseOffset; for more, the
  offset at index \<open>i\<close> is phaseOffset + (i/(samples-1)) * exposureTime - exposureTime/2;
  neighbouring offsets differ by exposureTime/(samples-1) (evenly spaced); the offsets at
  \<open>i\<close> and at samples-1-i add up to twice phaseOffset (symmetric about it); and for
  shutterAngle 0 every offset is phaseOffset.
\<close>

theorem C5_subframe_offsets:
  fixes c :: MotionBlurConfig and frameDuration :: real
  defines "phaseOffset \<equiv> (shutterPhase c / 360) * frameDuration"
    and "exposureTime \<equiv> frameDuration * (shutterAngle c / 360)"
    and "offsets \<equiv> calculateSubframeOffsets c frameDuration"
  assumes "resolvedConfig c"
  shows "real (length offsets) = samples c
    \<and> (samples c = 1 \<longrightarrow> offsets = [phaseOffset])
    \<and> (1 < samples c \<longrightarrow>
          (\<forall>i < length offsets.
             offsets ! i = phaseOffset + (real i / (samples c - 1)) * exposureTime - exposureTime / 2))
    \<and> (\<forall>i. Suc i < length offsets \<longrightarrow>
          offsets ! Suc i - offsets ! i = exposureTime / (samples c - 1))
    \<and> (\<forall>i < length offsets. offsets ! i + offsets ! (length offsets - 1 - i) = 2 * phaseOffset)
    \<and> (shutterAngle c = 0 \<longrightarrow> (\<forall>i < length offsets. offsets ! i = phaseOffset))"
proof -
  from assms(4) obtain n where n: "samples c = real n" and n1: "1 \<le> n"
    by (rule resolved_samples_nat)
  let ?f = "\<lambda>i. phaseOffset + (if n = 1 then 1 / 2 else real i / (real n - 1)) * exposureTime
              - exposureTime / 2"
  have offs: "offsets = map ?f [0..<n]"
    unfolding offsets_def phaseOffset_def exposureTime_def by (rule offsets_map [OF n])
  have len: "length offsets = n"
    by (simp add: offs)
  have nth: "offsets ! i = ?f i" if "i < n" for i
    using that by (simp add: offs)
  have one: "offsets = [phaseOffset]" if "samples c = 1"
  proof -
    from that n have "n = 1" by simp
    then show ?thesis by (simp add: offs)
  qed
  have many: "offsets ! i = phaseOffset + (real i / (samples c - 1)) * exposureTime - exposureTime / 2"
    if "1 < samples c" "i < n" for i
  proof -
    from that(1) n have "n \<noteq> 1" by auto
    with nth [OF that(2)] n show ?thesis by simp
  qed
  have spaced: "offsets ! Suc i - offsets ! i = exposureTime / (samples c - 1)" if "Suc i < n" for i
  proof -
    from that have n2: "n \<noteq> 1" and i: "i < n" by simp_all
    from n2 have m: "real n \<noteq> 1" by simp
    have a: "offsets ! Suc i = phaseOffset + (real i + 1) / (real n - 1) * exposureTime - exposureTime / 2"
      using nth [OF that] n2 by (simp add: add.commute)
    have b: "offsets ! i = phaseOffset + real i / (real n - 1) * exposureTime - exposureTime / 2"
      using nth [OF i] n2 by simp
    show ?thesis
      unfolding a b n by (rule spaced_aux [OF m])
  qed
  have sym: "offsets ! i + offsets ! (n - 1 - i) = 2 * phaseOffset" if "i < n" for i
  proof (cases "n = 1")
    case True
    with that show ?thesis by (simp add: offs)
  next
    case False
    with that have m: "real n \<noteq> 1" and j: "n - 1 - i < n" by simp_all
    from that have r: "real (n - 1 - i) = real n - 1 - real i"
      by (simp add: of_nat_diff)
    have a: "offsets ! i = phaseOffset + real i / (real n - 1) * exposureTime - exposureTime / 2"
      using nth [OF that] False by simp
    have b: "offsets ! (n - 1 - i)
        = phaseOffset + (real n - 1 - real i) / (real n - 1) * exposureTime - exposureTime / 2"
      using nth [OF j] False unfolding r by simp
    show ?thesis
      unfolding a b by (rule sym_aux [OF m])
  qed
  have zero: "offsets ! i = phaseOffset" if "shutterAngle c = 0" "i < n" for i
    using nth [OF that(2)] that(1) by (simp add: exposureTime_def)
  show ?thesis
  proof (intro conjI impI allI)
    show "real (length offsets) = samples c"
      by (simp add: len n)
  next
    assume "samples c = 1"
    then show "offsets = [phaseOffset]" by (rule one)
  next
    fix i assume "1 < samples c" "i < length offsets"
    then show "offsets ! i = phaseOffset + (real i / (samples c - 1)) * exposureTime - exposureTime / 2"
      by (simp add: many len)
  next
    fix i assume "Suc i < length offsets"
    then show "offsets ! Suc i - offsets ! i = exposureTime / (samples c - 1)"
      by (simp add: spaced len)
  next
    fix i assume "i < length offsets"
    then show "offsets ! i + offsets ! (length offsets - 1 - i) = 2 * phaseOffset"
      using sym [of i] by (simp only: len)
  next
    fix i assume "shutterAngle c = 0" "i < length offsets"
    then show "offsets ! i = phaseOffset"
      by (simp add: zero len)
  qed
qed


text \<open>
  The claim at the default configuration (8 samples, angle 180, phase -90) at 24 frames
  per second, and at a single sample with shutter angle 0.
\<close>

theorem C5_subframe_offsets_witness:
  "resolvedConfig DEFAULT_MOTION_BLUR_CONFIG
   \<and> length (calculateSubframeOffsets DEFAULT_MOTION_BLUR_CONFIG (1 / 24)) = 8
   \<and> calculateSubframeOffsets DEFAULT_MOTION_BLUR_CONFIG (1 / 24) ! 0 = - 1 / 48
   \<and> calculateSubframeOffsets DEFAULT_MOTION_BLUR_CONFIG (1 / 24) ! 7 = 0
   \<and> resolvedConfig (DEFAULT_MOTION_BLUR_CONFIG\<lparr>samples := 1, shutterAngle := 0\<rparr>)
   \<and> calculateSubframeOffsets (DEFAULT_MOTION_BLUR_CONFIG\<lparr>samples := 1, shutterAngle := 0\<rparr>) (1 / 24)
       = [- 1 / 96]"
proof -
  let ?c = DEFAULT_MOTION_BLUR_CONFIG
  let ?d = "DEFAULT_MOTION_BLUR_CONFIG\<lparr>samples := 1, shutterAngle := 0\<rparr>"
  have h: "resolvedConfig ?c"
    by (simp add: resolvedConfig_def DEFAULT_MOTION_BLUR_CONFIG_def isInteger_def)
  have h1: "resolvedConfig ?d"
    by (simp add: resolvedConfig_def DEFAULT_MOTION_BLUR_CONFIG_def isInteger_def)
  note t = C5_subframe_offsets [OF h, of "1 / 24"]
  from t have len: "length (calculateSubframeOffsets ?c (1 / 24)) = 8"
    by (simp add: DEFAULT_MOTION_BLUR_CONFIG_def)
  from t have many: "\<forall>i < length (calculateSubframeOffsets ?c (1 / 24)).
      calculateSubframeOffsets ?c (1 / 24) ! i = - 1 / 96 + (real i / 7) * (1 / 48) - 1 / 96"
    by (simp add: DEFAULT_MOTION_BLUR_CONFIG_def)
  from many len have a: "calculateSubframeOffsets ?c (1 / 24) ! 0 = - 1 / 48"
    by simp
  from many len have b: "calculateSubframeOffsets ?c (1 / 24) ! 7 = 0"
    by simp
  from C5_subframe_offsets [OF h1, of "1 / 24"] have c: "calculateSubframeOffsets ?d (1 / 24) = [- 1 / 96]"
    by (simp add: DEFAULT_MOTION_BLUR_CONFIG_def)
  from h h1 len a b c show ?thesis
    by simp
qed

text \<open>The weights: the raw weights are positive and fall with the distance from the centre.\<close>

lemma foldl_add_sum_list: "foldl (\<lambda>a b. a + b) (a :: real) xs = a + sum_list xs"
  by (induction xs arbitrary: a) simp_all

lemma sum_list_divide: "sum_list (map (\<lambda>w. w / (s :: real)) xs) = sum_list xs / s"
  by (induction xs) (simp_all add: add_divide_distrib)

lemma sum_list_positive:
  fixes xs :: "real list"
  assumes "xs \<noteq> []" and "\<forall>x \<in> set xs. 0 < x"
  shows "0 < sum_list xs"
  using assms
proof (induction xs)
  case Nil
  then show ?case by simp
next
  case (Cons x xs)
  then have "0 < x" and "\<forall>y \<in> set xs. 0 \<le> y"
    by (simp_all add: less_imp_le)
  then have "0 \<le> sum_list xs"
    by (simp add: sum_list_nonneg)
  with \<open>0 < x\<close> show ?case by simp
qed

lemma replicate_as_map: "replicate n (x :: real) = map (\<lambda>i. x) [0..<n]"
  by (simp add: map_replicate_const)

lemma raw_switch:
  assumes "samples c = real n" and "n \<le> 64"
  shows "(case shutterCurve c of
            Triangle \<Rightarrow> Inr (calculateTriangleWeights (samples c))
          | Gaussian \<Rightarrow> Inr (calculateGaussianWeights (samples c))
          | Box \<Rightarrow> calculateBoxWeights (samples c))
         = Inr (map (rawWeight (shutterCurve c) n) [0..<n])"
proof (cases "shutterCurve c")
  case Box
  from assms(2) have "real n < 2 ^ 32" by simp
  then have "calculateBoxWeights (real n) = Inr (replicate n 1)"
    by (simp add: calculateBoxWeights_def isInteger_def)
  with Box assms(1) show ?thesis
    by (simp add: rawWeight_def replicate_as_map)
next
  case Triangle
  with assms(1) show ?thesis
    by (simp add: calculateTriangleWeights_def pushLoop_map rawWeight_def Let_def)
next
  case Gaussian
  with assms(1) show ?thesis
    by (simp add: calculateGaussianWeights_def pushLoop_map rawWeight_def Let_def)
qed

lemma rawWeight_pos:
  assumes "i < n"
  shows "0 < rawWeight curve n i"
proof (cases curve)
  case Box
  then show ?thesis by (simp add: rawWeight_def)
next
  case Triangle
  from assms have n: "0 < real n" by simp
  from assms have "Suc i \<le> n" by simp
  then have "real (Suc i) \<le> real n" by (simp only: of_nat_le_iff)
  then have up: "real i + 1 \<le> real n" by simp
  have lo: "0 \<le> real i" by simp
  from up have "real i - (real n - 1) / 2 < real n / 2"
    by argo
  moreover from lo have "- (real i - (real n - 1) / 2) < real n / 2"
    by argo
  ultimately have "\<bar>real i - (real n - 1) / 2\<bar> < real n / 2"
    by (simp only: abs_less_iff)
  with n have "\<bar>real i - (real n - 1) / 2\<bar> / (real n / 2) < 1"
    by simp
  with Triangle show ?thesis by (simp add: rawWeight_def)
next
  case Gaussian
  then show ?thesis by (simp add: rawWeight_def)
qed

lemma rawWeight_antitone:
  assumes "0 < n"
    and "\<bar>real j - (real n - 1) / 2\<bar> \<le> \<bar>real i - (real n - 1) / 2\<bar>"
  shows "rawWeight curve n i \<le> rawWeight curve n j"
proof (cases curve)
  case Box
  then show ?thesis by (simp add: rawWeight_def)
next
  case Triangle
  from assms(1) have "0 < real n / 2" by simp
  with assms(2) have "\<bar>real j - (real n - 1) / 2\<bar> / (real n / 2)
      \<le> \<bar>real i - (real n - 1) / 2\<bar> / (real n / 2)"
    by (simp add: divide_right_mono)
  with Triangle show ?thesis by (simp add: rawWeight_def)
next
  case Gaussian
  let ?a = "real i - (real n - 1) / 2" and ?b = "real j - (real n - 1) / 2"
  let ?k = "2 * (real n / 4) * (real n / 4)"
  from assms(1) have k: "0 < ?k" by simp
  from assms(2) have "\<bar>?b\<bar> * \<bar>?b\<bar> \<le> \<bar>?a\<bar> * \<bar>?a\<bar>"
    by (intro mult_mono) simp_all
  then have "?b * ?b \<le> ?a * ?a"
    by (simp add: abs_mult_self_eq)
  then have "?b * ?b / ?k \<le> ?a * ?a / ?k"
    using k by (simp only: divide_right_mono less_imp_le)
  then have "- (?a * ?a) / ?k \<le> - (?b * ?b) / ?k"
    by simp
  then have "exp (- (?a * ?a) / ?k) \<le> exp (- (?b * ?b) / ?k)"
    by (simp only: exp_le_cancel_iff)
  with Gaussian show ?thesis by (simp add: rawWeight_def)
qed

lemma rawWeight_strict:
  assumes "0 < n" and "curve \<noteq> Box"
    and "\<bar>real j - (real n - 1) / 2\<bar> < \<bar>real i - (real n - 1) / 2\<bar>"
  shows "rawWeight curve n i < rawWeight curve n j"
proof (cases curve)
  case Box
  with assms(2) show ?thesis by simp
next
  case Triangle
  from assms(1) have "0 < real n / 2" by simp
  with assms(3) have "\<bar>real j - (real n - 1) / 2\<bar> / (real n / 2)
      < \<bar>real i - (real n - 1) / 2\<bar> / (real n / 2)"
    by (simp only: divide_strict_right_mono)
  with Triangle show ?thesis by (simp add: rawWeight_def)
next
  case Gaussian
  let ?a = "real i - (real n - 1) / 2" and ?b = "real j - (real n - 1) / 2"
  let ?k = "2 * (real n / 4) * (real n / 4)"
  from assms(1) have k: "0 < ?k" by simp
  have "0 \<le> \<bar>?b\<bar>" by simp
  with assms(3) have "\<bar>?b\<bar> * \<bar>?b\<bar> < \<bar>?a\<bar> * \<bar>?a\<bar>"
    by (intro mult_strict_mono') simp_all
  then have "?b * ?b < ?a * ?a"
    by (simp add: abs_mult_self_eq)
  then have "?b * ?b / ?k < ?a * ?a / ?k"
    using k by (simp only: divide_strict_right_mono)
  then have "- (?a * ?a) / ?k < - (?b * ?b) / ?k"
    by simp
  then have "exp (- (?a * ?a) / ?k) < exp (- (?b * ?b) / ?k)"
    by (simp only: exp_less_cancel_iff)
  with Gaussian show ?thesis by (simp add: rawWeight_def)
qed

lemma weights_normalized:
  assumes "samples c = real n" and "1 \<le> n" and "n \<le> 64"
  defines "wsum \<equiv> sum_list (map (rawWeight (shutterCurve c) n) [0..<n])"
  shows "0 < wsum"
    and "calculateSubframeWeights c
          = Inr (map (\<lambda>i. rawWeight (shutterCurve c) n i / wsum) [0..<n])"
proof -
  let ?raw = "map (rawWeight (shutterCurve c) n) [0..<n]"
  from assms(2) have ne: "?raw \<noteq> []" by simp
  have "\<forall>x \<in> set ?raw. 0 < x"
    by (auto simp: rawWeight_pos)
  with ne show pos: "0 < wsum"
    unfolding wsum_def by (rule sum_list_positive)
  have "foldl (\<lambda>a b. a + b) 0 ?raw = wsum"
    by (simp add: foldl_add_sum_list wsum_def)
  with pos ne raw_switch [OF assms(1,3)]
  show "calculateSubframeWeights c
          = Inr (map (\<lambda>i. rawWeight (shutterCurve c) n i / wsum) [0..<n])"
    by (simp add: calculateSubframeWeights_def Let_def comp_def)
qed

lemma sum_list_ones: "sum_list (map (\<lambda>i. 1 :: real) [0..<n]) = real n"
  by (induction n) simp_all

lemma odd_center:
  assumes "odd n"
  shows "real ((n - 1) div 2) = (real n - 1) / 2"
proof -
  from assms obtain k where k: "n = 2 * k + 1"
    by (auto elim: oddE)
  then show ?thesis by simp
qed

text \<open>
  Claim C6. For a resolved configuration, calculateSubframeWeights returns a list of
  exactly \<open>samples\<close> weights, none negative, that sum to 1 (exactly, over the reals),
  for each of the three curves; box weights are all 1/samples; a single sample has the
  weight 1 whatever the curve; and for an odd sample count the triangle and gaussian
  weights are largest at the middle index, strictly larger there than at every other
  index, and do not increase from there towards either edge (they fall strictly).
\<close>

theorem C6_subframe_weights:
  assumes "resolvedConfig c"
  shows "\<exists>weights. calculateSubframeWeights c = Inr weights
     \<and> real (length weights) = samples c
     \<and> (\<forall>w \<in> set weights. 0 \<le> w)
     \<and> sum_list weights = 1
     \<and> (shutterCurve c = Box \<longrightarrow> (\<forall>w \<in> set weights. w = 1 / samples c))
     \<and> (samples c = 1 \<longrightarrow> weights = [1])
     \<and> (odd (length weights) \<and> (shutterCurve c = Triangle \<or> shutterCurve c = Gaussian) \<longrightarrow>
          (\<forall>i < length weights. weights ! i \<le> weights ! ((length weights - 1) div 2))
          \<and> (\<forall>i < length weights. i \<noteq> (length weights - 1) div 2
                 \<longrightarrow> weights ! i < weights ! ((length weights - 1) div 2))
          \<and> (\<forall>i j. i \<le> j \<and> j \<le> (length weights - 1) div 2 \<longrightarrow> weights ! i \<le> weights ! j)
          \<and> (\<forall>i j. i < j \<and> j \<le> (length weights - 1) div 2 \<longrightarrow> weights ! i < weights ! j)
          \<and> (\<forall>i j. (length weights - 1) div 2 \<le> i \<and> i \<le> j \<and> j < length weights
                 \<longrightarrow> weights ! j \<le> weights ! i)
          \<and> (\<forall>i j. (length weights - 1) div 2 \<le> i \<and> i < j \<and> j < length weights
                 \<longrightarrow> weights ! j < weights ! i))"
proof -
  from assms obtain n where n: "samples c = real n" and n1: "1 \<le> n" and n64: "n \<le> 64"
    by (rule resolved_samples_nat)
  let ?g = "rawWeight (shutterCurve c) n"
  define wsum where "wsum = sum_list (map ?g [0..<n])"
  define weights where "weights = map (\<lambda>i. ?g i / wsum) [0..<n]"
  have pos: "0 < wsum"
    unfolding wsum_def by (rule weights_normalized(1) [OF n n1 n64])
  have res: "calculateSubframeWeights c = Inr weights"
    unfolding weights_def wsum_def by (rule weights_normalized(2) [OF n n1 n64])
  have len: "length weights = n"
    by (simp add: weights_def)
  have nth: "weights ! i = ?g i / wsum" if "i < n" for i
    using that by (simp add: weights_def)
  have mono: "weights ! i \<le> weights ! j"
    if "i < n" "j < n" "\<bar>real j - (real n - 1) / 2\<bar> \<le> \<bar>real i - (real n - 1) / 2\<bar>" for i j
  proof -
    from n1 that(3) have "?g i \<le> ?g j"
      by (intro rawWeight_antitone) simp_all
    with pos have "?g i / wsum \<le> ?g j / wsum"
      by (simp add: divide_right_mono)
    with that(1,2) show ?thesis by (simp add: nth)
  qed
  have nonneg: "\<forall>w \<in> set weights. 0 \<le> w"
  proof
    fix w assume "w \<in> set weights"
    then obtain i where "i < n" and "w = ?g i / wsum"
      by (auto simp: weights_def)
    with pos rawWeight_pos [of i n "shutterCurve c"] show "0 \<le> w"
      by simp
  qed
  have "weights = map (\<lambda>w. w / wsum) (map ?g [0..<n])"
    by (simp add: weights_def comp_def)
  then have "sum_list weights = sum_list (map ?g [0..<n]) / wsum"
    by (simp only: sum_list_divide)
  with pos have total: "sum_list weights = 1"
    by (simp add: wsum_def)
  have box: "\<forall>w \<in> set weights. w = 1 / samples c" if "shutterCurve c = Box"
  proof
    fix w assume "w \<in> set weights"
    then obtain i where "i < n" and w: "w = ?g i / wsum"
      by (auto simp: weights_def)
    have "rawWeight Box n = (\<lambda>i. 1)"
      by (simp add: rawWeight_def fun_eq_iff)
    with that have "wsum = real n"
      by (simp add: wsum_def sum_list_ones)
    with w that show "w = 1 / samples c"
      by (simp add: rawWeight_def n)
  qed
  have single: "weights = [1]" if "samples c = 1"
  proof -
    from that n have n_one: "n = 1" by simp
    then have "wsum = ?g 0"
      by (simp add: wsum_def)
    moreover from n_one have "0 < ?g 0"
      by (intro rawWeight_pos) simp
    ultimately show ?thesis
      using n_one by (simp add: weights_def)
  qed
  have peak: "weights ! i \<le> weights ! ((n - 1) div 2)" if "odd n" "i < n" for i
  proof -
    from that(1) have c: "real ((n - 1) div 2) = (real n - 1) / 2"
      by (rule odd_center)
    from n1 have m: "(n - 1) div 2 < n" by simp
    have z: "\<bar>real ((n - 1) div 2) - (real n - 1) / 2\<bar> \<le> \<bar>real i - (real n - 1) / 2\<bar>"
      unfolding c by simp
    show ?thesis
      by (rule mono [OF that(2) m z])
  qed
  have left: "weights ! i \<le> weights ! j" if "odd n" "i \<le> j" "j \<le> (n - 1) div 2" for i j
  proof -
    from that(1) have c: "real ((n - 1) div 2) = (real n - 1) / 2"
      by (rule odd_center)
    from n1 have m: "(n - 1) div 2 < n" by simp
    from that(3) have "real j \<le> real ((n - 1) div 2)"
      by (simp only: of_nat_le_iff)
    then have j: "real j \<le> (real n - 1) / 2"
      by (simp only: c)
    from that(2) have ij: "real i \<le> real j"
      by simp
    from j ij have "\<bar>real j - (real n - 1) / 2\<bar> \<le> \<bar>real i - (real n - 1) / 2\<bar>"
      by simp
    moreover from that(2,3) m have "i < n" "j < n"
      by simp_all
    ultimately show ?thesis
      by (intro mono)
  qed
  have right: "weights ! j \<le> weights ! i"
    if "odd n" "(n - 1) div 2 \<le> i" "i \<le> j" "j < n" for i j
  proof -
    from that(1) have c: "real ((n - 1) div 2) = (real n - 1) / 2"
      by (rule odd_center)
    from that(2) have "real ((n - 1) div 2) \<le> real i"
      by (simp only: of_nat_le_iff)
    then have i: "(real n - 1) / 2 \<le> real i"
      by (simp only: c)
    from that(3) have ij: "real i \<le> real j"
      by simp
    from i ij have "\<bar>real i - (real n - 1) / 2\<bar> \<le> \<bar>real j - (real n - 1) / 2\<bar>"
      by simp
    moreover from that(3,4) have "j < n" "i < n"
      by simp_all
    ultimately show ?thesis
      by (intro mono)
  qed
  have strict: "weights ! i < weights ! j"
    if "shutterCurve c = Triangle \<or> shutterCurve c = Gaussian" "i < n" "j < n"
      "\<bar>real j - (real n - 1) / 2\<bar> < \<bar>real i - (real n - 1) / 2\<bar>" for i j
  proof -
    from that(1) have "shutterCurve c \<noteq> Box"
      by auto
    with n1 that(4) have "?g i < ?g j"
      by (intro rawWeight_strict) simp_all
    with pos have "?g i / wsum < ?g j / wsum"
      by (simp add: divide_strict_right_mono)
    with that(2,3) show ?thesis by (simp add: nth)
  qed
  have speak: "weights ! i < weights ! ((n - 1) div 2)"
    if "odd n" "shutterCurve c = Triangle \<or> shutterCurve c = Gaussian" "i < n"
      "i \<noteq> (n - 1) div 2" for i
  proof -
    from that(1) have c: "real ((n - 1) div 2) = (real n - 1) / 2"
      by (rule odd_center)
    from n1 have m: "(n - 1) div 2 < n" by simp
    from that(4) have "real i \<noteq> real ((n - 1) div 2)"
      by (simp only: of_nat_eq_iff) simp
    then have "real i - (real n - 1) / 2 \<noteq> 0"
      unfolding c by simp
    then have z: "\<bar>real ((n - 1) div 2) - (real n - 1) / 2\<bar> < \<bar>real i - (real n - 1) / 2\<bar>"
      unfolding c by simp
    show ?thesis
      by (rule strict [OF that(2) that(3) m z])
  qed
  have sleft: "weights ! i < weights ! j"
    if "odd n" "shutterCurve c = Triangle \<or> shutterCurve c = Gaussian" "i < j"
      "j \<le> (n - 1) div 2" for i j
  proof -
    from that(1) have c: "real ((n - 1) div 2) = (real n - 1) / 2"
      by (rule odd_center)
    from n1 have m: "(n - 1) div 2 < n" by simp
    from that(4) have "real j \<le> real ((n - 1) div 2)"
      by (simp only: of_nat_le_iff)
    then have j: "real j \<le> (real n - 1) / 2"
      by (simp only: c)
    from that(3) have ij: "real i < real j"
      by simp
    from j ij have "\<bar>real j - (real n - 1) / 2\<bar> < \<bar>real i - (real n - 1) / 2\<bar>"
      by simp
    moreover from that(3,4) m have "i < n" "j < n"
      by simp_all
    ultimately show ?thesis
      using that(2) by (intro strict)
  qed
  have sright: "weights ! j < weights ! i"
    if "odd n" "shutterCurve c = Triangle \<or> shutterCurve c = Gaussian"
      "(n - 1) div 2 \<le> i" "i < j" "j < n" for i j
  proof -
    from that(1) have c: "real ((n - 1) div 2) = (real n - 1) / 2"
      by (rule odd_center)
    from that(3) have "real ((n - 1) div 2) \<le> real i"
      by (simp only: of_nat_le_iff)
    then have i: "(real n - 1) / 2 \<le> real i"
      by (simp only: c)
    from that(4) have ij: "real i < real j"
      by simp
    from i ij have "\<bar>real i - (real n - 1) / 2\<bar> < \<bar>real j - (real n - 1) / 2\<bar>"
      by simp
    moreover from that(4,5) have "j < n" "i < n"
      by simp_all
    ultimately show ?thesis
      using that(2) by (intro strict)
  qed
  have lenr: "real (length weights) = samples c"
    by (simp add: len n)
  have boxi: "shutterCurve c = Box \<longrightarrow> (\<forall>w \<in> set weights. w = 1 / samples c)"
    using box by blast
  have singlei: "samples c = 1 \<longrightarrow> weights = [1]"
    using single by blast
  have oddi: "odd (length weights) \<and> (shutterCurve c = Triangle \<or> shutterCurve c = Gaussian) \<longrightarrow>
          (\<forall>i < length weights. weights ! i \<le> weights ! ((length weights - 1) div 2))
          \<and> (\<forall>i < length weights. i \<noteq> (length weights - 1) div 2
                 \<longrightarrow> weights ! i < weights ! ((length weights - 1) div 2))
          \<and> (\<forall>i j. i \<le> j \<and> j \<le> (length weights - 1) div 2 \<longrightarrow> weights ! i \<le> weights ! j)
          \<and> (\<forall>i j. i < j \<and> j \<le> (length weights - 1) div 2 \<longrightarrow> weights ! i < weights ! j)
          \<and> (\<forall>i j. (length weights - 1) div 2 \<le> i \<and> i \<le> j \<and> j < length weights
                 \<longrightarrow> weights ! j \<le> weights ! i)
          \<and> (\<forall>i j. (length weights - 1) div 2 \<le> i \<and> i < j \<and> j < length weights
                 \<longrightarrow> weights ! j < weights ! i)"
    unfolding len
  proof (intro impI conjI allI)
    fix i assume "odd n \<and> (shutterCurve c = Triangle \<or> shutterCurve c = Gaussian)" "i < n"
    then show "weights ! i \<le> weights ! ((n - 1) div 2)"
      by (intro peak) simp_all
  next
    fix i
    assume "odd n \<and> (shutterCurve c = Triangle \<or> shutterCurve c = Gaussian)" "i < n"
      "i \<noteq> (n - 1) div 2"
    then show "weights ! i < weights ! ((n - 1) div 2)"
      by (intro speak) simp_all
  next
    fix i j
    assume "odd n \<and> (shutterCurve c = Triangle \<or> shutterCurve c = Gaussian)"
      "i \<le> j \<and> j \<le> (n - 1) div 2"
    then show "weights ! i \<le> weights ! j"
      by (intro left) simp_all
  next
    fix i j
    assume "odd n \<and> (shutterCurve c = Triangle \<or> shutterCurve c = Gaussian)"
      "i < j \<and> j \<le> (n - 1) div 2"
    then show "weights ! i < weights ! j"
      by (intro sleft) simp_all
  next
    fix i j
    assume "odd n \<and> (shutterCurve c = Triangle \<or> shutterCurve c = Gaussian)"
      "(n - 1) div 2 \<le> i \<and> i \<le> j \<and> j < n"
    then show "weights ! j \<le> weights ! i"
      by (intro right) simp_all
  next
    fix i j
    assume "odd n \<and> (shutterCurve c = Triangle \<or> shutterCurve c = Gaussian)"
      "(n - 1) div 2 \<le> i \<and> i < j \<and> j < n"
    then show "weights ! j < weights ! i"
      by (intro sright) simp_all
  qed
  show ?thesis
    by (intro exI [of _ weights] conjI) (fact res lenr nonneg total boxi singlei oddi)+
qed

text \<open>
  The claim at three samples with the triangle curve: the weights are 1/5, 3/5, 1/5.
\<close>

theorem C6_subframe_weights_witness:
  "resolvedConfig (DEFAULT_MOTION_BLUR_CONFIG\<lparr>samples := 3, shutterCurve := Triangle\<rparr>)
   \<and> calculateSubframeWeights (DEFAULT_MOTION_BLUR_CONFIG\<lparr>samples := 3, shutterCurve := Triangle\<rparr>)
       = Inr [1 / 5, 3 / 5, 1 / 5]
   \<and> (\<exists>weights.
         calculateSubframeWeights (DEFAULT_MOTION_BLUR_CONFIG\<lparr>samples := 3, shutterCurve := Triangle\<rparr>)
           = Inr weights
         \<and> length weights = 3 \<and> sum_list weights = 1
         \<and> weights ! 0 < weights ! 1 \<and> weights ! 2 < weights ! 1)"
proof -
  let ?c = "DEFAULT_MOTION_BLUR_CONFIG\<lparr>samples := 3, shutterCurve := Triangle\<rparr>"
  have h: "resolvedConfig ?c"
    by (simp add: resolvedConfig_def DEFAULT_MOTION_BLUR_CONFIG_def isInteger_def)
  have s: "samples ?c = real 3"
    by simp
  have upt3: "[0..<3] = [0, 1, 2 :: nat]"
    by code_simp
  have "calculateSubframeWeights ?c
      = Inr (map (\<lambda>i. rawWeight (shutterCurve ?c) 3 i
                    / sum_list (map (rawWeight (shutterCurve ?c) 3) [0..<3])) [0..<3])"
    by (rule weights_normalized(2) [OF s]) simp_all
  then have v: "calculateSubframeWeights ?c = Inr [1 / 5, 3 / 5, 1 / 5]"
    unfolding upt3 by (simp add: rawWeight_def)
  from C6_subframe_weights [OF h] obtain weights where w: "calculateSubframeWeights ?c = Inr weights"
    and len: "real (length weights) = samples ?c" and total: "sum_list weights = 1"
    and odd: "odd (length weights) \<and> (shutterCurve ?c = Triangle \<or> shutterCurve ?c = Gaussian) \<longrightarrow>
          (\<forall>i < length weights. weights ! i \<le> weights ! ((length weights - 1) div 2))
          \<and> (\<forall>i < length weights. i \<noteq> (length weights - 1) div 2
                 \<longrightarrow> weights ! i < weights ! ((length weights - 1) div 2))
          \<and> (\<forall>i j. i \<le> j \<and> j \<le> (length weights - 1) div 2 \<longrightarrow> weights ! i \<le> weights ! j)
          \<and> (\<forall>i j. i < j \<and> j \<le> (length weights - 1) div 2 \<longrightarrow> weights ! i < weights ! j)
          \<and> (\<forall>i j. (length weights - 1) div 2 \<le> i \<and> i \<le> j \<and> j < length weights
                 \<longrightarrow> weights ! j \<le> weights ! i)
          \<and> (\<forall>i j. (length weights - 1) div 2 \<le> i \<and> i < j \<and> j < length weights
                 \<longrightarrow> weights ! j < weights ! i)"
    by (elim exE conjE)
  from len have l3: "length weights = 3"
    by simp
  from odd have "\<forall>i < 3. i \<noteq> 1 \<longrightarrow> weights ! i < weights ! 1"
    unfolding l3 by simp
  then have "weights ! 0 < weights ! 1" and "weights ! 2 < weights ! 1"
    by simp_all
  with h v w l3 total show ?thesis
    by blast
qed

subsection \<open>Adaptive sampling\<close>

lemma Math_round_mono: "x \<le> y \<Longrightarrow> Math_round x \<le> Math_round y"
  by (simp add: Math_round_def floor_mono)

lemma Math_round_integer: "isInteger x \<Longrightarrow> Math_round x = x"
  by (metis Math_round_of_int isInteger_def)

lemma adaptive_value:
  assumes "adaptiveSampling c" and "nullish t 50 \<noteq> 0"
  shows "calculateAdaptiveSamples c v t
    = Inr (max (adaptiveMinSamples c)
            (Math_round (adaptiveMinSamples c
               + (samples c - adaptiveMinSamples c) * min 1 (v / nullish t 50))))"
  using assms by (simp add: calculateAdaptiveSamples_def Let_def)

text \<open>
  Claim C7, as stated, has the result equal \<open>samples\<close> at every velocity from the
  threshold on. The resolver does not keep adaptiveMinSamples below samples, and the
  final \<^verbatim>\<open>Math.max\<close> makes the minimum win: for the resolved
  \<^verbatim>\<open>{samples: 4, adaptiveSampling: true, adaptiveMinSamples: 10}\<close> the result at
  velocity 50 with threshold 50 is 10, not 4.
\<close>

theorem C7_counterexample:
  "adaptiveSampling (resolveMotionBlurConfig
      (Some (noOptions\<lparr>opt_samples := Some 4, opt_adaptiveSampling := Some True,
                        opt_adaptiveMinSamples := Some 10\<rparr>)))
   \<and> samples (resolveMotionBlurConfig
      (Some (noOptions\<lparr>opt_samples := Some 4, opt_adaptiveSampling := Some True,
                        opt_adaptiveMinSamples := Some 10\<rparr>))) = 4
   \<and> calculateAdaptiveSamples (resolveMotionBlurConfig
      (Some (noOptions\<lparr>opt_samples := Some 4, opt_adaptiveSampling := Some True,
                        opt_adaptiveMinSamples := Some 10\<rparr>))) 50 (Some 50) = Inr 10
   \<and> calculateAdaptiveSamples (resolveMotionBlurConfig
      (Some (noOptions\<lparr>opt_samples := Some 4, opt_adaptiveSampling := Some True,
                        opt_adaptiveMinSamples := Some 10\<rparr>))) 50 (Some 50)
       \<noteq> Inr (samples (resolveMotionBlurConfig
      (Some (noOptions\<lparr>opt_samples := Some 4, opt_adaptiveSampling := Some True,
                        opt_adaptiveMinSamples := Some 10\<rparr>))))"
  by (simp add: resolve_defs calculateAdaptiveSamples_def)

text \<open>
  Claim C7, amended. For every resolved configuration: with adaptive sampling off the
  result is \<open>samples\<close> for every velocity (and threshold). With it on and a positive
  threshold: at velocity 0 the result is adaptiveMinSamples when that is an integer; at
  every velocity from the threshold on the result is the larger of adaptiveMinSamples and
  \<open>samples\<close>, so it is \<open>samples\<close> when adaptiveMinSamples is at most \<open>samples\<close>; and
  when adaptiveMinSamples is at most \<open>samples\<close> the result does not decrease as the
  velocity grows.
\<close>

theorem C7_adaptive_samples:
  assumes "resolvedConfig c"
  shows "(\<not> adaptiveSampling c \<longrightarrow> calculateAdaptiveSamples c v t = Inr (samples c))
    \<and> (adaptiveSampling c \<and> 0 < nullish t 50 \<longrightarrow>
         (isInteger (adaptiveMinSamples c)
            \<longrightarrow> calculateAdaptiveSamples c 0 t = Inr (adaptiveMinSamples c))
         \<and> (nullish t 50 \<le> v
            \<longrightarrow> calculateAdaptiveSamples c v t = Inr (max (adaptiveMinSamples c) (samples c)))
         \<and> (nullish t 50 \<le> v \<and> adaptiveMinSamples c \<le> samples c
            \<longrightarrow> calculateAdaptiveSamples c v t = Inr (samples c))
         \<and> (adaptiveMinSamples c \<le> samples c \<and> v1 \<le> v2
            \<longrightarrow> (\<exists>r1 r2. calculateAdaptiveSamples c v1 t = Inr r1
                  \<and> calculateAdaptiveSamples c v2 t = Inr r2 \<and> r1 \<le> r2)))"
proof (intro conjI impI)
  assume "\<not> adaptiveSampling c"
  then show "calculateAdaptiveSamples c v t = Inr (samples c)"
    by (simp add: calculateAdaptiveSamples_def Let_def)
next
  assume a: "adaptiveSampling c \<and> 0 < nullish t 50" and i: "isInteger (adaptiveMinSamples c)"
  from a have "nullish t 50 \<noteq> 0" by simp
  with a i show "calculateAdaptiveSamples c 0 t = Inr (adaptiveMinSamples c)"
    by (simp add: adaptive_value Math_round_integer)
next
  assume a: "adaptiveSampling c \<and> 0 < nullish t 50" and v: "nullish t 50 \<le> v"
  from a have nz: "nullish t 50 \<noteq> 0" by simp
  from a v have "1 \<le> v / nullish t 50" by simp
  then have s: "min 1 (v / nullish t 50) = 1" by simp
  from assms have "isInteger (samples c)"
    by (simp add: resolvedConfig_def)
  then have "Math_round (samples c) = samples c"
    by (rule Math_round_integer)
  with a nz show "calculateAdaptiveSamples c v t = Inr (max (adaptiveMinSamples c) (samples c))"
    by (simp add: adaptive_value s)
next
  assume a: "adaptiveSampling c \<and> 0 < nullish t 50"
    and v: "nullish t 50 \<le> v \<and> adaptiveMinSamples c \<le> samples c"
  from a have nz: "nullish t 50 \<noteq> 0" by simp
  from a v have "1 \<le> v / nullish t 50" by simp
  then have s: "min 1 (v / nullish t 50) = 1" by simp
  from assms have "isInteger (samples c)"
    by (simp add: resolvedConfig_def)
  then have "Math_round (samples c) = samples c"
    by (rule Math_round_integer)
  with a nz v show "calculateAdaptiveSamples c v t = Inr (samples c)"
    by (simp add: adaptive_value s)
next
  assume a: "adaptiveSampling c \<and> 0 < nullish t 50"
    and m: "adaptiveMinSamples c \<le> samples c \<and> v1 \<le> v2"
  from a have nz: "nullish t 50 \<noteq> 0" and pos: "0 \<le> nullish t 50" by simp_all
  let ?x = "\<lambda>v. adaptiveMinSamples c
              + (samples c - adaptiveMinSamples c) * min 1 (v / nullish t 50)"
  from m pos have "v1 / nullish t 50 \<le> v2 / nullish t 50"
    by (simp add: divide_right_mono)
  then have "min 1 (v1 / nullish t 50) \<le> min 1 (v2 / nullish t 50)"
    by simp
  with m have "(samples c - adaptiveMinSamples c) * min 1 (v1 / nullish t 50)
      \<le> (samples c - adaptiveMinSamples c) * min 1 (v2 / nullish t 50)"
    by (intro mult_left_mono) simp_all
  then have "?x v1 \<le> ?x v2" by simp
  then have "Math_round (?x v1) \<le> Math_round (?x v2)"
    by (rule Math_round_mono)
  then have "max (adaptiveMinSamples c) (Math_round (?x v1))
      \<le> max (adaptiveMinSamples c) (Math_round (?x v2))"
    by simp
  with a nz show "\<exists>r1 r2. calculateAdaptiveSamples c v1 t = Inr r1
      \<and> calculateAdaptiveSamples c v2 t = Inr r2 \<and> r1 \<le> r2"
    by (simp add: adaptive_value)
qed

text \<open>
  At a threshold of 0 a positive velocity gives the full sample count, and velocity 0 no
  finite result.
\<close>

lemma adaptive_zero_threshold:
  "calculateAdaptiveSamples
     (DEFAULT_MOTION_BLUR_CONFIG\<lparr>samples := 16, adaptiveSampling := True\<rparr>) 10 (Some 0)
   = Inr 16
   \<and> calculateAdaptiveSamples
     (DEFAULT_MOTION_BLUR_CONFIG\<lparr>samples := 16, adaptiveSampling := True\<rparr>) 0 (Some 0)
   = Inl NotFinite"
  by (simp add: calculateAdaptiveSamples_def DEFAULT_MOTION_BLUR_CONFIG_def nullish_def
      Math_round_def)

text \<open>
  The conditions of the amended claim are needed: a fractional minimum is rounded up at
  velocity 0, and with it and fewer samples than the minimum the result falls as the
  velocity grows.
\<close>

lemma adaptive_fractional_minimum:
  "calculateAdaptiveSamples
     (DEFAULT_MOTION_BLUR_CONFIG\<lparr>adaptiveSampling := True, adaptiveMinSamples := 5 / 2\<rparr>) 0 None
   = Inr 3"
  by (simp add: calculateAdaptiveSamples_def DEFAULT_MOTION_BLUR_CONFIG_def nullish_def
      Math_round_def)

lemma adaptive_not_monotone:
  "calculateAdaptiveSamples
     (DEFAULT_MOTION_BLUR_CONFIG
        \<lparr>samples := 1, adaptiveSampling := True, adaptiveMinSamples := 5 / 2\<rparr>) 0 None = Inr 3
   \<and> calculateAdaptiveSamples
     (DEFAULT_MOTION_BLUR_CONFIG
        \<lparr>samples := 1, adaptiveSampling := True, adaptiveMinSamples := 5 / 2\<rparr>) 50 None
       = Inr (5 / 2)"
  by (simp add: calculateAdaptiveSamples_def DEFAULT_MOTION_BLUR_CONFIG_def nullish_def
      Math_round_def)

text \<open>
  The amended claim at 16 samples with the default minimum of 2, adaptive sampling on,
  and at the default configuration, where it is off.
\<close>

theorem C7_adaptive_samples_witness:
  "resolvedConfig (DEFAULT_MOTION_BLUR_CONFIG\<lparr>samples := 16, adaptiveSampling := True\<rparr>)
   \<and> calculateAdaptiveSamples
        (DEFAULT_MOTION_BLUR_CONFIG\<lparr>samples := 16, adaptiveSampling := True\<rparr>) 0 None = Inr 2
   \<and> calculateAdaptiveSamples
        (DEFAULT_MOTION_BLUR_CONFIG\<lparr>samples := 16, adaptiveSampling := True\<rparr>) 100 (Some 50)
       = Inr 16
   \<and> (\<exists>r1 r2.
         calculateAdaptiveSamples
           (DEFAULT_MOTION_BLUR_CONFIG\<lparr>samples := 16, adaptiveSampling := True\<rparr>) 10 None = Inr r1
         \<and> calculateAdaptiveSamples
           (DEFAULT_MOTION_BLUR_CONFIG\<lparr>samples := 16, adaptiveSampling := True\<rparr>) 25 None = Inr r2
         \<and> r1 \<le> r2)
   \<and> calculateAdaptiveSamples DEFAULT_MOTION_BLUR_CONFIG 100 None = Inr 8"
proof -
  let ?c = "DEFAULT_MOTION_BLUR_CONFIG\<lparr>samples := 16, adaptiveSampling := True\<rparr>"
  have h: "resolvedConfig ?c"
    by (simp add: resolvedConfig_def DEFAULT_MOTION_BLUR_CONFIG_def isInteger_def)
  have h0: "resolvedConfig DEFAULT_MOTION_BLUR_CONFIG"
    by (simp add: resolvedConfig_def DEFAULT_MOTION_BLUR_CONFIG_def isInteger_def)
  have a: "adaptiveSampling ?c" and i: "isInteger (adaptiveMinSamples ?c)"
    and m: "adaptiveMinSamples ?c \<le> samples ?c" and am: "adaptiveMinSamples ?c = 2"
    and s: "samples ?c = 16"
    by (simp_all add: DEFAULT_MOTION_BLUR_CONFIG_def isInteger_def)
  have t1: "0 < nullish None (50 :: real)" and t2: "0 < nullish (Some 50) (50 :: real)"
    and t3: "nullish (Some 50) (50 :: real) \<le> 100"
    by (simp_all add: nullish_def)
  from C7_adaptive_samples [OF h, of 0 None] a i t1
  have zero: "calculateAdaptiveSamples ?c 0 None = Inr 2"
    unfolding am by blast
  from C7_adaptive_samples [OF h, of 100 "Some 50"] a m t2 t3
  have full: "calculateAdaptiveSamples ?c 100 (Some 50) = Inr 16"
    unfolding s by blast
  from C7_adaptive_samples [OF h, of _ None 10 25] a m t1
  have mono: "\<exists>r1 r2. calculateAdaptiveSamples ?c 10 None = Inr r1
      \<and> calculateAdaptiveSamples ?c 25 None = Inr r2 \<and> r1 \<le> r2"
    by simp
  from C7_adaptive_samples [OF h0, of 100 None]
  have off: "calculateAdaptiveSamples DEFAULT_MOTION_BLUR_CONFIG 100 None = Inr 8"
    by (simp add: DEFAULT_MOTION_BLUR_CONFIG_def)
  from h zero full mono off show ?thesis
    by blast
qed

section \<open>Properties of the stage\<close>

text \<open>
  Claim C10. A call of configure whose size (compared with \<^verbatim>\<open>exactlyEquals\<close>) and
  resolutionScale both equal the current values (given or absent) leaves the
  accumulation buffer and the sample counter as they are, whatever it does to the
  background, the colour space and the motion blur configuration; every other call sets
  the accumulation buffer to null (and leaves the counter).
\<close>

theorem C10_configure_accumulation:
  "(exactlyEquals (nullish (set_size settings) (stageSize s)) (stageSize s)
      \<and> nullish (set_resolutionScale settings) (resolutionScale s) = resolutionScale s
      \<longrightarrow> accumulationBuffer (configure settings s) = accumulationBuffer s
          \<and> accumulationSamples (configure settings s) = accumulationSamples s)
   \<and> (\<not> (exactlyEquals (nullish (set_size settings) (stageSize s)) (stageSize s)
           \<and> nullish (set_resolutionScale settings) (resolutionScale s) = resolutionScale s)
      \<longrightarrow> accumulationBuffer (configure settings s) = None
          \<and> accumulationSamples (configure settings s) = accumulationSamples s)"
  by (simp add: configure_def Let_def split: option.splits)

text \<open>
  The claim on the example stage: a configure that changes colour space, background and
  motion blur keeps the buffer and the counter; one that changes the size or the
  resolution scale drops the buffer.
\<close>

theorem C10_configure_accumulation_witness:
  "accumulationBuffer
     (configure
        (noSettings\<lparr>set_colorSpace := Some DisplayP3,
                     set_background := Some (BackgroundString ''black''),
                     set_motionBlur := Some (noOptions\<lparr>opt_enabled := Some True\<rparr>)\<rparr>)
        exampleStage)
     = Some [62 / 5, 300, - 5, 509 / 2]
   \<and> accumulationSamples
     (configure
        (noSettings\<lparr>set_colorSpace := Some DisplayP3,
                     set_background := Some (BackgroundString ''black''),
                     set_motionBlur := Some (noOptions\<lparr>opt_enabled := Some True\<rparr>)\<rparr>)
        exampleStage) = 2
   \<and> colorSpace
     (configure
        (noSettings\<lparr>set_colorSpace := Some DisplayP3,
                     set_background := Some (BackgroundString ''black''),
                     set_motionBlur := Some (noOptions\<lparr>opt_enabled := Some True\<rparr>)\<rparr>)
        exampleStage) = DisplayP3
   \<and> accumulationBuffer
     (configure (noSettings\<lparr>set_size := Some \<lparr>width = 2, height = 1\<rparr>\<rparr>) exampleStage) = None
   \<and> accumulationBuffer
     (configure (noSettings\<lparr>set_resolutionScale := Some (1 / 2)\<rparr>) exampleStage) = None
   \<and> accumulationSamples
     (configure (noSettings\<lparr>set_resolutionScale := Some (1 / 2)\<rparr>) exampleStage) = 2"
proof -
  let ?same = "noSettings\<lparr>set_colorSpace := Some DisplayP3,
                     set_background := Some (BackgroundString ''black''),
                     set_motionBlur := Some (noOptions\<lparr>opt_enabled := Some True\<rparr>)\<rparr>"
  let ?size = "noSettings\<lparr>set_size := Some \<lparr>width = 2, height = 1\<rparr>\<rparr>"
  let ?scale = "noSettings\<lparr>set_resolutionScale := Some (1 / 2)\<rparr>"
  have same: "exactlyEquals (nullish (set_size ?same) (stageSize exampleStage)) (stageSize exampleStage)
      \<and> nullish (set_resolutionScale ?same) (resolutionScale exampleStage)
          = resolutionScale exampleStage"
    by (simp add: noSettings_def nullish_def exactlyEquals_def)
  have size: "\<not> (exactlyEquals (nullish (set_size ?size) (stageSize exampleStage)) (stageSize exampleStage)
      \<and> nullish (set_resolutionScale ?size) (resolutionScale exampleStage)
          = resolutionScale exampleStage)"
    by (simp add: noSettings_def nullish_def exactlyEquals_def exampleStage_def)
  have scale: "\<not> (exactlyEquals (nullish (set_size ?scale) (stageSize exampleStage)) (stageSize exampleStage)
      \<and> nullish (set_resolutionScale ?scale) (resolutionScale exampleStage)
          = resolutionScale exampleStage)"
    by (simp add: noSettings_def nullish_def exactlyEquals_def exampleStage_def)
  have b: "accumulationBuffer exampleStage = Some [62 / 5, 300, - 5, 509 / 2]"
    and n: "accumulationSamples exampleStage = 2"
    by (simp_all add: exampleStage_def)
  have cs: "colorSpace (configure ?same exampleStage) = DisplayP3"
    by (simp add: configure_def noSettings_def nullish_def exactlyEquals_def exampleStage_def
        Let_def)
  from C10_configure_accumulation [of ?same exampleStage] same
  have "accumulationBuffer (configure ?same exampleStage) = accumulationBuffer exampleStage"
    and "accumulationSamples (configure ?same exampleStage) = accumulationSamples exampleStage"
    by blast+
  moreover from C10_configure_accumulation [of ?size exampleStage] size
  have "accumulationBuffer (configure ?size exampleStage) = None"
    by blast
  moreover from C10_configure_accumulation [of ?scale exampleStage] scale
  have "accumulationBuffer (configure ?scale exampleStage) = None"
    and "accumulationSamples (configure ?scale exampleStage) = accumulationSamples exampleStage"
    by blast+
  ultimately show ?thesis
    using cs unfolding b n by blast
qed

subsection \<open>Finalizing\<close>

lemma finalizeLoop_eq:
  "i \<le> length pixels \<Longrightarrow>
    finalizeLoop buf i pixels = take i pixels @ map (finalPixel buf) [i..<length pixels]"
proof (induction "length pixels - i" arbitrary: i pixels)
  case 0
  then have "i = length pixels" by simp
  then show ?case by (subst finalizeLoop.simps) simp
next
  case (Suc d)
  then have lt: "i < length pixels" by simp
  let ?p = "pixels[i := finalPixel buf i]"
  from Suc(2) have d: "d = length ?p - Suc i" by simp
  from lt have le: "Suc i \<le> length ?p" by simp
  from lt have "finalizeLoop buf i pixels = finalizeLoop buf (Suc i) ?p"
    by (subst finalizeLoop.simps) simp
  also have "\<dots> = take (Suc i) ?p @ map (finalPixel buf) [Suc i..<length ?p]"
    by (rule Suc(1) [OF d le])
  also from lt have "take (Suc i) ?p = take i pixels @ [finalPixel buf i]"
    by (simp add: take_Suc_conv_app_nth)
  finally show ?case
    using lt by (simp add: upt_conv_Cons)
qed

lemma finalizeLoop_create:
  "finalizeLoop buf 0 (createImageData w h) = map (finalPixel buf) [0..<4 * w * h]"
  by (simp add: finalizeLoop_eq createImageData_def)

lemma toUint8Clamp_of_int:
  assumes "0 \<le> r" and "r \<le> 255"
  shows "toUint8Clamp (of_int r) = nat r"
proof -
  consider "r = 0" | "r = 255" | "0 < r" "r < 255"
    using assms by linarith
  then show ?thesis
  proof cases
    case 1
    then show ?thesis by (simp add: toUint8Clamp_def)
  next
    case 2
    then show ?thesis by (simp add: toUint8Clamp_def)
  next
    case 3
    then show ?thesis by (simp add: toUint8Clamp_def)
  qed
qed

lemma clamped_round_range:
  "0 \<le> \<lfloor>min 255 (max 0 v) + 1 / 2 :: real\<rfloor> \<and> \<lfloor>min 255 (max 0 v) + 1 / 2 :: real\<rfloor> \<le> 255"
proof
  have "(0 :: real) \<le> min 255 (max 0 v) + 1 / 2"
    by simp
  then show "0 \<le> \<lfloor>min 255 (max 0 v) + 1 / 2 :: real\<rfloor>"
    by simp
  have "min 255 (max 0 v) + 1 / 2 < (256 :: real)"
    by simp
  then have "\<lfloor>min 255 (max 0 v) + 1 / 2 :: real\<rfloor> < 256"
    by (simp only: floor_less_iff of_int_numeral)
  then show "\<lfloor>min 255 (max 0 v) + 1 / 2 :: real\<rfloor> \<le> 255"
    by simp
qed

lemma finalPixel_value:
  assumes "i < length buf"
  shows "finalPixel buf i = nat \<lfloor>min 255 (max 0 (buf ! i)) + 1 / 2\<rfloor>"
  using assms clamped_round_range [of "buf ! i"]
  by (simp add: finalPixel_def Math_round_def toUint8Clamp_of_int)

lemma finalPixel_real:
  assumes "i < length buf"
  shows "real (finalPixel buf i) = Math_round (min 255 (max 0 (buf ! i)))"
  using assms clamped_round_range [of "buf ! i"]
  by (simp add: finalPixel_value Math_round_def)

lemma pixel_index:
  fixes k w h :: nat
  assumes "k < 4 * w * h"
  shows "(k div 4) mod w < w" and "(k div 4) div w < h"
    and "((k div 4) div w * w + (k div 4) mod w) * 4 + k mod 4 = k"
proof -
  from assms have w: "0 < w"
    by (cases w) simp_all
  then show "(k div 4) mod w < w" by simp
  from assms have "k div 4 < w * h"
    by (simp add: less_mult_imp_div_less mult.commute mult.left_commute)
  then have "k div 4 < h * w" by (simp add: mult.commute)
  then show "(k div 4) div w < h"
    by (rule less_mult_imp_div_less)
  show "((k div 4) div w * w + (k div 4) mod w) * 4 + k mod 4 = k"
    by simp
qed

lemma putImageData_full:
  assumes "canvas_width c = w" and "canvas_height c = h" and "length img = 4 * w * h"
  shows "putImageData c img w h = c\<lparr>canvas_data := img\<rparr>"
proof -
  have "map (\<lambda>k. let x = (k div 4) mod w; y = (k div 4) div w
                 in if x < w \<and> y < h then channelAt img ((y * w + x) * 4 + k mod 4)
                    else channelAt (canvas_data c) k) [0..<4 * w * h]
      = map (\<lambda>k. img ! k) [0..<4 * w * h]"
  proof (rule map_cong [OF refl])
    fix k assume "k \<in> set [0..<4 * w * h]"
    then have k: "k < 4 * w * h" by simp
    from pixel_index [OF k] k assms(3)
    show "(let x = (k div 4) mod w; y = (k div 4) div w
           in if x < w \<and> y < h then channelAt img ((y * w + x) * 4 + k mod 4)
              else channelAt (canvas_data c) k) = img ! k"
      by (simp add: Let_def channelAt_def)
  qed
  also have "\<dots> = img"
    unfolding assms(3) [symmetric] by (rule map_nth)
  finally show ?thesis
    using assms(1,2) by (simp add: putImageData_def)
qed

text \<open>
  A sized stage (\<open>stageSized\<close>) is what the stage's own operations produce: a configure
  that changes the size makes the stage sized, and configure, begin, accumulate and
  finalize keep it sized.
\<close>

lemma floor_area:
  fixes w h :: real
  shows "4 * nat \<lfloor>w\<rfloor> * nat \<lfloor>h\<rfloor> \<le> nat \<lfloor>w * h * 4\<rfloor>"
proof (cases "0 < \<lfloor>w\<rfloor> \<and> 0 < \<lfloor>h\<rfloor>")
  case False
  then have "nat \<lfloor>w\<rfloor> = 0 \<or> nat \<lfloor>h\<rfloor> = 0"
    by auto
  then show ?thesis by auto
next
  case True
  then have W: "0 \<le> (of_int \<lfloor>w\<rfloor> :: real)" and H: "0 \<le> (of_int \<lfloor>h\<rfloor> :: real)"
    by simp_all
  have "(of_int \<lfloor>w\<rfloor> :: real) \<le> w" and "(of_int \<lfloor>h\<rfloor> :: real) \<le> h"
    by simp_all
  with W H have "(of_int \<lfloor>w\<rfloor> :: real) * of_int \<lfloor>h\<rfloor> \<le> w * h"
    by (intro mult_mono) linarith+
  then have "(of_int (4 * \<lfloor>w\<rfloor> * \<lfloor>h\<rfloor>) :: real) \<le> w * h * 4"
    by simp
  then have "4 * \<lfloor>w\<rfloor> * \<lfloor>h\<rfloor> \<le> \<lfloor>w * h * 4\<rfloor>"
    by (simp only: le_floor_iff)
  then have "nat (4 * \<lfloor>w\<rfloor> * \<lfloor>h\<rfloor>) \<le> nat \<lfloor>w * h * 4\<rfloor>"
    by (rule nat_mono)
  moreover from True have "nat (4 * \<lfloor>w\<rfloor> * \<lfloor>h\<rfloor>) = 4 * nat \<lfloor>w\<rfloor> * nat \<lfloor>h\<rfloor>"
    by (simp add: nat_mult_distrib)
  ultimately show ?thesis by simp
qed

lemma accumulateLoop_length: "length (accumulateLoop pixels weight i buf) = length buf"
proof (induction pixels weight i buf rule: accumulateLoop.induct)
  case (1 pixels weight i buf)
  show ?case
  proof (cases "i < length pixels")
    case True
    with "1" show ?thesis
      by (subst accumulateLoop.simps) simp
  next
    case False
    then show ?thesis
      by (subst accumulateLoop.simps) simp
  qed
qed

lemma stageSized_configure_resize:
  assumes "\<not> (exactlyEquals (nullish (set_size settings) (stageSize s)) (stageSize s)
           \<and> nullish (set_resolutionScale settings) (resolutionScale s) = resolutionScale s)"
  shows "stageSized (configure settings s)"
  using assms
  by (auto simp: stageSized_def configure_def Let_def resizeCanvas_def canvasSize_def
      split: option.splits)

lemma stageSized_configure:
  assumes "stageSized s"
  shows "stageSized (configure settings s)"
proof (cases "exactlyEquals (nullish (set_size settings) (stageSize s)) (stageSize s)
           \<and> nullish (set_resolutionScale settings) (resolutionScale s) = resolutionScale s")
  case True
  then have "finalBuffer (configure settings s) = finalBuffer s"
    and "accumulationBuffer (configure settings s) = accumulationBuffer s"
    and "canvasSize (configure settings s) = canvasSize s"
    by (simp_all add: configure_def Let_def canvasSize_def split: option.splits)
  with assms show ?thesis
    by (simp add: stageSized_def)
next
  case False
  then show ?thesis by (rule stageSized_configure_resize)
qed

lemma stageSized_begin:
  assumes "stageSized s"
  shows "stageSized (beginMotionBlurAccumulation s)"
proof -
  let ?w = "width (canvasSize s)" and ?h = "height (canvasSize s)"
  have new: "4 * toDimension ?w * toDimension ?h \<le> length (new_Float32Array (?w * ?h * 4))"
    by (simp add: new_Float32Array_def toDimension_def floor_area)
  have kept: "4 * toDimension ?w * toDimension ?h \<le> length buf"
    if "real (length buf) = ?w * ?h * 4" for buf :: "real list"
  proof -
    from that have "length buf = nat \<lfloor>?w * ?h * 4\<rfloor>"
      by (metis floor_of_nat nat_int)
    then show ?thesis
      by (simp add: toDimension_def floor_area)
  qed
  have size: "canvasSize (beginMotionBlurAccumulation s) = canvasSize s"
    and fb: "finalBuffer (beginMotionBlurAccumulation s) = finalBuffer s"
    by (simp_all add: beginMotionBlurAccumulation_def Let_def canvasSize_def)
  obtain buf where buf: "accumulationBuffer (beginMotionBlurAccumulation s) = Some buf"
    and len: "4 * toDimension ?w * toDimension ?h \<le> length buf"
  proof (cases "accumulationBuffer s")
    case None
    with new that show thesis
      by (simp add: beginMotionBlurAccumulation_def Let_def)
  next
    case (Some old)
    show thesis
    proof (cases "real (length old) = ?w * ?h * 4")
      case True
      with Some kept [OF True] that [of "map (\<lambda>v. 0) old"] show thesis
        by (simp add: beginMotionBlurAccumulation_def Let_def)
    next
      case False
      with Some new that show thesis
        by (simp add: beginMotionBlurAccumulation_def Let_def)
    qed
  qed
  with assms size fb show ?thesis
    by (simp add: stageSized_def Let_def)
qed

lemma stageSized_accumulate:
  assumes "stageSized s"
  shows "stageSized (accumulateMotionBlurSample weight s)"
proof (cases "accumulationBuffer s")
  case None
  with assms show ?thesis
    by (simp add: accumulateMotionBlurSample_def)
next
  case (Some buf)
  with assms show ?thesis
    by (simp add: accumulateMotionBlurSample_def stageSized_def Let_def canvasSize_def
        accumulateLoop_length)
qed

lemma stageSized_finalize:
  assumes "stageSized s"
  shows "stageSized (finalizeMotionBlur s)"
  using assms
  by (auto simp: finalizeMotionBlur_def stageSized_def Let_def canvasSize_def putImageData_def
      split: option.splits)

lemma map_nth_take: "n \<le> length xs \<Longrightarrow> map (\<lambda>i. xs ! i) [0..<n] = take n xs"
  by (simp add: list_eq_iff_nth_eq)

lemma finalize_written:
  assumes "accumulationBuffer s = Some buf" and "accumulationSamples s \<noteq> 0"
    and "stageSized s"
  shows "finalizeMotionBlur s
    = s\<lparr>finalBuffer :=
          (finalBuffer s)
            \<lparr>canvas_data :=
               map (\<lambda>v. nat \<lfloor>min 255 (max 0 v) + 1 / 2\<rfloor>)
                 (take (4 * toDimension (width (canvasSize s))
                          * toDimension (height (canvasSize s))) buf)\<rparr>\<rparr>"
proof -
  let ?w = "toDimension (width (canvasSize s))" and ?h = "toDimension (height (canvasSize s))"
  let ?pixels = "finalizeLoop buf 0 (createImageData ?w ?h)"
  from assms(1,3) have cw: "canvas_width (finalBuffer s) = ?w"
    and ch: "canvas_height (finalBuffer s) = ?h" and len: "4 * ?w * ?h \<le> length buf"
    by (simp_all add: stageSized_def Let_def)
  have "?pixels = map (finalPixel buf) [0..<4 * ?w * ?h]"
    by (rule finalizeLoop_create)
  also have "\<dots> = map (\<lambda>i. nat \<lfloor>min 255 (max 0 (buf ! i)) + 1 / 2\<rfloor>) [0..<4 * ?w * ?h]"
    using len by (intro map_cong [OF refl]) (simp add: finalPixel_value)
  also have "\<dots> = map (\<lambda>v. nat \<lfloor>min 255 (max 0 v) + 1 / 2\<rfloor>)
                      (map (\<lambda>i. buf ! i) [0..<4 * ?w * ?h])"
    by (simp add: comp_def)
  also from len have "map (\<lambda>i. buf ! i) [0..<4 * ?w * ?h] = take (4 * ?w * ?h) buf"
    by (rule map_nth_take)
  finally have pixels: "?pixels
      = map (\<lambda>v. nat \<lfloor>min 255 (max 0 v) + 1 / 2\<rfloor>) (take (4 * ?w * ?h) buf)" .
  with len have "length ?pixels = 4 * ?w * ?h"
    by simp
  with cw ch have "putImageData (finalBuffer s) ?pixels ?w ?h
      = (finalBuffer s)\<lparr>canvas_data := ?pixels\<rparr>"
    by (intro putImageData_full)
  with assms(1,2) pixels show ?thesis
    by (simp add: finalizeMotionBlur_def Let_def)
qed

text \<open>
  Claim C9, as stated, has finalizeMotionBlur leave the visible render target unchanged
  exactly when there is no accumulation buffer or the sample counter is 0. On the
  example stage with the canvas already holding 12, 255, 0, 255, the rounded values of
  its buffer, the buffer exists and the counter is 2, the write takes place, and the
  stage with its render target is as before: the target is unchanged although the guard
  does not hold. A pass of a single sample of weight 1 ends this way.
\<close>

theorem C9_counterexample:
  "finalizeMotionBlur
     (exampleStage\<lparr>finalBuffer :=
        \<lparr>canvas_width = 1, canvas_height = 1, canvas_data = [12, 255, 0, 255]\<rparr>\<rparr>)
   = exampleStage\<lparr>finalBuffer :=
        \<lparr>canvas_width = 1, canvas_height = 1, canvas_data = [12, 255, 0, 255]\<rparr>\<rparr>
   \<and> accumulationBuffer
        (exampleStage\<lparr>finalBuffer :=
           \<lparr>canvas_width = 1, canvas_height = 1, canvas_data = [12, 255, 0, 255]\<rparr>\<rparr>)
       = Some [62 / 5, 300, - 5, 509 / 2]
   \<and> accumulationSamples
        (exampleStage\<lparr>finalBuffer :=
           \<lparr>canvas_width = 1, canvas_height = 1, canvas_data = [12, 255, 0, 255]\<rparr>\<rparr>)
       = 2"
proof -
  let ?s = "exampleStage\<lparr>finalBuffer :=
        \<lparr>canvas_width = 1, canvas_height = 1, canvas_data = [12, 255, 0, 255]\<rparr>\<rparr>"
  have buf: "accumulationBuffer ?s = Some [62 / 5, 300, - 5, 509 / 2]"
    and n: "accumulationSamples ?s = 2"
    by (simp_all add: exampleStage_def)
  have sized: "stageSized ?s"
    by (simp add: stageSized_def exampleStage_def canvasSize_def Vector2_scale_def
        toDimension_def)
  have dims: "4 * toDimension (width (canvasSize ?s)) * toDimension (height (canvasSize ?s)) = 4"
    by (simp add: exampleStage_def canvasSize_def Vector2_scale_def toDimension_def)
  from n have "accumulationSamples ?s \<noteq> 0"
    by simp
  with buf have "finalizeMotionBlur ?s
      = ?s\<lparr>finalBuffer :=
            (finalBuffer ?s)
              \<lparr>canvas_data :=
                 map (\<lambda>v. nat \<lfloor>min 255 (max 0 v) + 1 / 2\<rfloor>)
                   (take (4 * toDimension (width (canvasSize ?s))
                            * toDimension (height (canvasSize ?s)))
                      [62 / 5, 300, - 5, 509 / 2 :: real])\<rparr>\<rparr>"
    using sized by (rule finalize_written)
  then have "finalizeMotionBlur ?s = ?s"
    unfolding dims by simp
  with buf n show ?thesis
    by simp
qed

text \<open>
  Claim C9, amended. finalizeMotionBlur returns at once, leaving the stage and so the
  visible render target as they are, whenever there is no accumulation buffer or the
  sample counter is 0. Otherwise, on a sized stage, it replaces the data of the visible
  canvas: every channel of every pixel becomes the accumulated value clamped to [0,255]
  and rounded to the nearest integer, and nothing else of the stage changes; the target
  is then as it was before exactly when it held these values already (last conjunct).
\<close>

theorem C9_finalize:
  "(accumulationBuffer s = None \<or> accumulationSamples s = 0 \<longrightarrow> finalizeMotionBlur s = s)
   \<and> (\<forall>buf.
         accumulationBuffer s = Some buf \<and> accumulationSamples s \<noteq> 0 \<and> stageSized s
         \<longrightarrow>
           finalizeMotionBlur s
             = s\<lparr>finalBuffer :=
                   (finalBuffer s)
                     \<lparr>canvas_data :=
                        map (\<lambda>v. nat \<lfloor>min 255 (max 0 v) + 1 / 2\<rfloor>)
                          (take (4 * canvas_width (finalBuffer s) * canvas_height (finalBuffer s))
                             buf)\<rparr>\<rparr>
           \<and> length (canvas_data (finalBuffer (finalizeMotionBlur s)))
                = 4 * canvas_width (finalBuffer s) * canvas_height (finalBuffer s)
           \<and> (\<forall>i < 4 * canvas_width (finalBuffer s) * canvas_height (finalBuffer s).
                 real (canvas_data (finalBuffer (finalizeMotionBlur s)) ! i)
                   = Math_round (min 255 (max 0 (buf ! i))))
           \<and> (finalizeMotionBlur s = s
                \<longleftrightarrow> canvas_data (finalBuffer s)
                      = map (\<lambda>v. nat \<lfloor>min 255 (max 0 v) + 1 / 2\<rfloor>)
                          (take (4 * canvas_width (finalBuffer s) * canvas_height (finalBuffer s))
                             buf)))"
proof (intro conjI impI allI)
  assume "accumulationBuffer s = None \<or> accumulationSamples s = 0"
  then show "finalizeMotionBlur s = s"
    by (auto simp: finalizeMotionBlur_def split: option.splits)
next
  fix buf :: "real list"
  let ?n = "4 * canvas_width (finalBuffer s) * canvas_height (finalBuffer s)"
  let ?written = "map (\<lambda>v. nat \<lfloor>min 255 (max 0 v) + 1 / 2\<rfloor>) (take ?n buf)"
  assume a: "accumulationBuffer s = Some buf \<and> accumulationSamples s \<noteq> 0 \<and> stageSized s"
  then have dims: "canvas_width (finalBuffer s) = toDimension (width (canvasSize s))"
      "canvas_height (finalBuffer s) = toDimension (height (canvasSize s))"
    and len: "?n \<le> length buf"
    by (auto simp: stageSized_def Let_def)
  from a show w: "finalizeMotionBlur s
      = s\<lparr>finalBuffer := (finalBuffer s)\<lparr>canvas_data := ?written\<rparr>\<rparr>"
    unfolding dims by (intro finalize_written) simp_all
  from len show "length (canvas_data (finalBuffer (finalizeMotionBlur s))) = ?n"
    by (simp add: w)
  show "finalizeMotionBlur s = s \<longleftrightarrow> canvas_data (finalBuffer s) = ?written"
  proof
    assume "finalizeMotionBlur s = s"
    then have "canvas_data (finalBuffer (finalizeMotionBlur s)) = canvas_data (finalBuffer s)"
      by simp
    then show "canvas_data (finalBuffer s) = ?written"
      by (simp add: w)
  next
    assume "canvas_data (finalBuffer s) = ?written"
    then have "(finalBuffer s)\<lparr>canvas_data := ?written\<rparr> = finalBuffer s"
      by (metis Canvas.surjective Canvas.update_convs(3))
    then show "finalizeMotionBlur s = s"
      by (simp add: w)
  qed
  fix i assume i: "i < ?n"
  have "0 \<le> \<lfloor>min 255 (max 0 (buf ! i)) + 1 / 2\<rfloor>"
    using clamped_round_range [of "buf ! i"] by simp
  with i len show "real (canvas_data (finalBuffer (finalizeMotionBlur s)) ! i)
      = Math_round (min 255 (max 0 (buf ! i)))"
    by (simp add: w Math_round_def)
qed

text \<open>
  The amended claim on the example stage: with a counter of 0 or no buffer nothing
  changes; otherwise the accumulated 12.4, 300, -5, 254.5 are written as 12, 255, 0, 255.
\<close>

theorem C9_finalize_witness:
  "finalizeMotionBlur (exampleStage\<lparr>accumulationSamples := 0\<rparr>)
     = exampleStage\<lparr>accumulationSamples := 0\<rparr>
   \<and> finalizeMotionBlur (exampleStage\<lparr>accumulationBuffer := None\<rparr>)
     = exampleStage\<lparr>accumulationBuffer := None\<rparr>
   \<and> stageSized exampleStage
   \<and> canvas_data (finalBuffer exampleStage) = [10, 20, 30, 255]
   \<and> canvas_data (finalBuffer (finalizeMotionBlur exampleStage)) = [12, 255, 0, 255]"
proof -
  have g0: "accumulationBuffer (exampleStage\<lparr>accumulationSamples := 0\<rparr>) = None
      \<or> accumulationSamples (exampleStage\<lparr>accumulationSamples := 0\<rparr>) = 0"
    by simp
  have g1: "accumulationBuffer (exampleStage\<lparr>accumulationBuffer := None\<rparr>) = None
      \<or> accumulationSamples (exampleStage\<lparr>accumulationBuffer := None\<rparr>) = 0"
    by simp
  have sized: "stageSized exampleStage"
    by (simp add: stageSized_def exampleStage_def canvasSize_def Vector2_scale_def
        toDimension_def)
  have h: "accumulationBuffer exampleStage = Some [62 / 5, 300, - 5, 509 / 2]
      \<and> accumulationSamples exampleStage \<noteq> 0"
    by (simp add: exampleStage_def)
  have n: "4 * canvas_width (finalBuffer exampleStage) * canvas_height (finalBuffer exampleStage)
      = 4"
    by (simp add: exampleStage_def)
  from C9_finalize [of "exampleStage\<lparr>accumulationSamples := 0\<rparr>"] g0
  have a: "finalizeMotionBlur (exampleStage\<lparr>accumulationSamples := 0\<rparr>)
      = exampleStage\<lparr>accumulationSamples := 0\<rparr>"
    by blast
  from C9_finalize [of "exampleStage\<lparr>accumulationBuffer := None\<rparr>"] g1
  have b: "finalizeMotionBlur (exampleStage\<lparr>accumulationBuffer := None\<rparr>)
      = exampleStage\<lparr>accumulationBuffer := None\<rparr>"
    by blast
  from C9_finalize [of exampleStage] h sized
  have "finalizeMotionBlur exampleStage
      = exampleStage\<lparr>finalBuffer :=
          (finalBuffer exampleStage)
            \<lparr>canvas_data := map (\<lambda>v. nat \<lfloor>min 255 (max 0 v) + 1 / 2\<rfloor>)
                               (take 4 [62 / 5, 300, - 5, 509 / 2 :: real])\<rparr>\<rparr>"
    unfolding n by blast
  then have c: "canvas_data (finalBuffer (finalizeMotionBlur exampleStage)) = [12, 255, 0, 255]"
    by simp
  have d: "canvas_data (finalBuffer exampleStage) = [10, 20, 30, 255]"
    by (simp add: exampleStage_def)
  from a b sized c d show ?thesis
    by blast
qed

subsection \<open>The render loop\<close>

lemma renderLoop_eq:
  "i \<le> length offs \<Longrightarrow>
    renderLoop cb offs ws i (s, calls)
      = (fold (\<lambda>k st. accumulateMotionBlurSample (ws ! k) (cb (offs ! k) st)) [i..<length offs] s,
         calls @ concat (map (\<lambda>k. [CallRender (offs ! k), CallAccumulate (ws ! k)])
                          [i..<length offs]))"
proof (induction "length offs - i" arbitrary: i s calls)
  case 0
  then have "i = length offs" by simp
  then show ?case by (subst renderLoop.simps) simp
next
  case (Suc d)
  then have lt: "i < length offs" and d: "d = length offs - Suc i" by simp_all
  from lt have le: "Suc i \<le> length offs" by simp
  from lt have "renderLoop cb offs ws i (s, calls)
      = renderLoop cb offs ws (Suc i)
          (accumulateMotionBlurSample (ws ! i) (cb (offs ! i) s),
           calls @ [CallRender (offs ! i), CallAccumulate (ws ! i)])"
    by (subst renderLoop.simps) simp
  also have "\<dots>
      = (fold (\<lambda>k st. accumulateMotionBlurSample (ws ! k) (cb (offs ! k) st)) [Suc i..<length offs]
           (accumulateMotionBlurSample (ws ! i) (cb (offs ! i) s)),
         (calls @ [CallRender (offs ! i), CallAccumulate (ws ! i)])
           @ concat (map (\<lambda>k. [CallRender (offs ! k), CallAccumulate (ws ! k)])
                      [Suc i..<length offs]))"
    by (rule Suc(1) [OF d le])
  finally show ?case
    using lt by (simp add: upt_conv_Cons)
qed

text \<open>
  Claim C8. With an empty list of offsets, or lists of different lengths,
  renderWithMotionBlur returns the stage as it was and makes no call: no begin, no
  callback, no accumulate, no finalize. Otherwise its calls are, in this order: begin
  once; for each index from 0 upwards the callback with the offset at that index, then
  accumulate with the weight at that index; finalize once at the end. The resulting
  stage is the one these calls produce.
\<close>

theorem C8_render_with_motion_blur:
  "(subframeOffsets = [] \<or> length subframeOffsets \<noteq> length weights
      \<longrightarrow> renderWithMotionBlur renderCallback subframeOffsets weights s = (s, []))
   \<and> (subframeOffsets \<noteq> [] \<and> length subframeOffsets = length weights
      \<longrightarrow> renderWithMotionBlur renderCallback subframeOffsets weights s
          = (finalizeMotionBlur
               (fold (\<lambda>i st. accumulateMotionBlurSample (weights ! i)
                               (renderCallback (subframeOffsets ! i) st))
                  [0..<length subframeOffsets] (beginMotionBlurAccumulation s)),
             [CallBegin]
             @ concat (map (\<lambda>i. [CallRender (subframeOffsets ! i), CallAccumulate (weights ! i)])
                         [0..<length subframeOffsets])
             @ [CallFinalize]))"
proof (intro conjI impI)
  assume "subframeOffsets = [] \<or> length subframeOffsets \<noteq> length weights"
  then show "renderWithMotionBlur renderCallback subframeOffsets weights s = (s, [])"
    by (auto simp: renderWithMotionBlur_def)
next
  assume "subframeOffsets \<noteq> [] \<and> length subframeOffsets = length weights"
  then show "renderWithMotionBlur renderCallback subframeOffsets weights s
      = (finalizeMotionBlur
           (fold (\<lambda>i st. accumulateMotionBlurSample (weights ! i)
                           (renderCallback (subframeOffsets ! i) st))
              [0..<length subframeOffsets] (beginMotionBlurAccumulation s)),
         [CallBegin]
         @ concat (map (\<lambda>i. [CallRender (subframeOffsets ! i), CallAccumulate (weights ! i)])
                     [0..<length subframeOffsets])
         @ [CallFinalize])"
    by (auto simp: renderWithMotionBlur_def renderLoop_eq)
qed

text \<open>
  The claim on the example stage with a callback that leaves the stage alone: no call
  for empty or mismatched lists, and the calls in order for two sub-frames.
\<close>

theorem C8_render_with_motion_blur_witness:
  "renderWithMotionBlur (\<lambda>timeOffset st. st) [] [] exampleStage = (exampleStage, [])
   \<and> renderWithMotionBlur (\<lambda>timeOffset st. st) [0, 1 / 48] [1] exampleStage = (exampleStage, [])
   \<and> snd (renderWithMotionBlur (\<lambda>timeOffset st. st) [- 1 / 96, 1 / 96] [1 / 4, 3 / 4] exampleStage)
       = [CallBegin, CallRender (- 1 / 96), CallAccumulate (1 / 4),
          CallRender (1 / 96), CallAccumulate (3 / 4), CallFinalize]"
proof -
  let ?cb = "\<lambda>(timeOffset :: real) (st :: Stage). st"
  have upt2: "[0..<2] = [0, 1 :: nat]"
    by code_simp
  from C8_render_with_motion_blur [of "[]" "[]" ?cb exampleStage]
  have a: "renderWithMotionBlur ?cb [] [] exampleStage = (exampleStage, [])"
    by simp
  from C8_render_with_motion_blur [of "[0, 1 / 48]" "[1]" ?cb exampleStage]
  have b: "renderWithMotionBlur ?cb [0, 1 / 48] [1] exampleStage = (exampleStage, [])"
    by simp
  from C8_render_with_motion_blur [of "[- 1 / 96, 1 / 96]" "[1 / 4, 3 / 4]" ?cb exampleStage]
  have c: "snd (renderWithMotionBlur ?cb [- 1 / 96, 1 / 96] [1 / 4, 3 / 4] exampleStage)
       = [CallBegin, CallRender (- 1 / 96), CallAccumulate (1 / 4),
          CallRender (1 / 96), CallAccumulate (3 / 4), CallFinalize]"
    by (simp add: upt2)
  from a b c show ?thesis
    by blast
qed

end
